theory Spec2Isabelle
  imports Complex_Main "HOL-Library.Multiset"
begin

section \<open>Data model (types.ts)\<close>

text \<open>
  The record kept per client (interface ClientEntry). Identifiers and timestamps are
  JavaScript numbers holding integral millisecond counts (Date.now()), modelled as
  \<open>int\<close>. The optional field clientPhoto (string or undefined) and the nullable
  field signatureImage (string or null) are \<open>string option\<close>. The field id is named
  \<open>entry_id\<close>, since \<open>id\<close> is the identity function of HOL.
\<close>

record ClientEntry =
  entry_id :: int
  uniqueCode :: string
  clientName :: string
  phone :: string
  address :: string
  servicePlan :: string
  paymentDetails :: string
  clientPhoto :: "string option"
  signatureImage :: "string option"
  timestamp :: int

record BackgroundImage =
  bg_id :: string
  dataUrl :: string

section \<open>Failure values and the quota test (App.tsx, isQuotaError)\<close>

text \<open>
  A value thrown or rejected by one of the two storage tiers (an Error or DOMException
  object), as far as the handlers look at it: whether it is an instance of DOMException,
  its numeric code, its name and its message (each absent on values that do not carry
  it).
\<close>

record failure =
  isDOMException :: bool
  code :: "int option"
  name :: "string option"
  message :: "string option"

definition isQuotaError :: "failure \<Rightarrow> bool" where
  "isQuotaError e =
     (isDOMException e \<and>
      (code e = Some 22 \<or>
       code e = Some 1014 \<or>
       name e = Some ''QuotaExceededError'' \<or>
       name e = Some ''NS_ERROR_DOM_QUOTA_REACHED''))"

text \<open>
  String.prototype.toLowerCase, on the characters of HOL strings: the letters A to Z are
  mapped to a to z and every other character is kept (no other character is mapped to a
  letter of "quota"). String.prototype.includes is the test for a contiguous occurrence.
\<close>

definition lower_char :: "char \<Rightarrow> char" where
  "lower_char c =
     (case map_of (zip ''ABCDEFGHIJKLMNOPQRSTUVWXYZ'' ''abcdefghijklmnopqrstuvwxyz'') c of
        Some l \<Rightarrow> l
      | None \<Rightarrow> c)"

definition toLowerCase :: "string \<Rightarrow> string" where
  "toLowerCase s = map lower_char s"

fun starts_with :: "string \<Rightarrow> string \<Rightarrow> bool" where
  "starts_with s [] = True"
| "starts_with [] (p # ps) = False"
| "starts_with (c # cs) (p # ps) = (c = p \<and> starts_with cs ps)"

fun includes_str :: "string \<Rightarrow> string \<Rightarrow> bool" where
  "includes_str [] sub = (sub = [])"
| "includes_str (c # cs) sub = (starts_with (c # cs) sub \<or> includes_str cs sub)"

text \<open>
  The condition of both catch handlers of handleSaveEntry (the Primary one and the
  Fallback one):
  \<^verbatim>\<open>isQuotaError(err) || err.message?.toLowerCase().includes('quota')\<close>.
  A failure without a message makes the right operand undefined, which is falsy.
\<close>

definition is_quota_failure :: "failure \<Rightarrow> bool" where
  "is_quota_failure err =
     (isQuotaError err \<or>
      (case message err of
         None \<Rightarrow> False
       | Some m \<Rightarrow> includes_str (toLowerCase m) ''quota''))"

text \<open>The two classes of the specification, decided by that condition.\<close>

datatype failure_class = Quota | Other

definition Classify :: "failure \<Rightarrow> failure_class" where
  "Classify err = (if is_quota_failure err then Quota else Other)"

section \<open>The Primary tier (services/db.ts)\<close>

text \<open>
  The object store 'clients' has key path 'id': it holds at most one record per key and
  enumerates its records (getAll, openCursor) in ascending key order. It is modelled as the
  list of its records in that order; \<open>wf_store\<close> says that the keys ascend strictly.
  \<open>put\<close> is IDBObjectStore.put (and IDBCursor.update, which stores at the cursor's key):
  it replaces the record with the same key or inserts a new one. \<open>delete_key\<close> is
  IDBObjectStore.delete (and IDBCursor.delete).
\<close>

definition wf_store :: "ClientEntry list \<Rightarrow> bool" where
  "wf_store db = sorted_wrt (<) (map entry_id db)"

fun put :: "ClientEntry \<Rightarrow> ClientEntry list \<Rightarrow> ClientEntry list" where
  "put c [] = [c]"
| "put c (x # xs) =
     (if entry_id c < entry_id x then c # x # xs
      else if entry_id c = entry_id x then c # xs
      else x # put c xs)"

definition delete_key :: "int \<Rightarrow> ClientEntry list \<Rightarrow> ClientEntry list" where
  "delete_key k db = filter (\<lambda>x. entry_id x \<noteq> k) db"

text \<open>
  What the platform does with one call of a dbService function: how opening the database
  ends, and whether the transaction or request of the call fails (with which value). A
  failed call leaves the object store as it was: IndexedDB aborts the transaction.
\<close>

datatype open_outcome = Unsupported | OpenThrows failure | OpenRequestError | Opened

record db_io =
  open_db :: open_outcome
  request_fault :: "failure option"

text \<open>A plain \<^verbatim>\<open>new Error(msg)\<close>: not a DOMException, no code, name 'Error'.\<close>

definition Error :: "string \<Rightarrow> failure" where
  "Error msg = \<lparr>isDOMException = False, code = None, name = Some ''Error'', message = Some msg\<rparr>"

definition openDB :: "open_outcome \<Rightarrow> failure + unit" where
  "openDB oc =
     (case oc of
        Unsupported \<Rightarrow> Inl (Error ''IndexedDB is not supported in this browser environment.'')
      | OpenThrows e \<Rightarrow> Inl e
      | OpenRequestError \<Rightarrow> Inl (Error ''Failed to open database.'')
      | Opened \<Rightarrow> Inr ())"

text \<open>
  \<^verbatim>\<open>results.sort((a, b) => b.timestamp - a.timestamp)\<close>: Array.prototype.sort is
  stable, so it is the stable sort on the negated timestamp. The result of getAll is
  always an array, so the branch \<^verbatim>\<open>resolve([])\<close> for a missing result is never
  taken. The catch clause of getAllClients throws the failure on.
\<close>

definition sort_newest_first :: "ClientEntry list \<Rightarrow> ClientEntry list" where
  "sort_newest_first results = sort_key (\<lambda>e. - timestamp e) results"

definition getAllClients :: "db_io \<Rightarrow> ClientEntry list \<Rightarrow> failure + ClientEntry list" where
  "getAllClients io db =
     (case openDB (open_db io) of
        Inl e \<Rightarrow> Inl e
      | Inr _ \<Rightarrow>
          (case request_fault io of
             Some e \<Rightarrow> Inl e
           | None \<Rightarrow> Inr (sort_newest_first db)))"

definition saveClient :: "db_io \<Rightarrow> ClientEntry \<Rightarrow> ClientEntry list \<Rightarrow> failure + ClientEntry list" where
  "saveClient io client db =
     (case openDB (open_db io) of
        Inl e \<Rightarrow> Inl e
      | Inr _ \<Rightarrow>
          (case request_fault io of
             Some e \<Rightarrow> Inl e
           | None \<Rightarrow> Inr (put client db)))"

definition deleteClient :: "db_io \<Rightarrow> int \<Rightarrow> ClientEntry list \<Rightarrow> failure + ClientEntry list" where
  "deleteClient io k db =
     (case openDB (open_db io) of
        Inl e \<Rightarrow> Inl e
      | Inr _ \<Rightarrow>
          (case request_fault io of
             Some e \<Rightarrow> Inl e
           | None \<Rightarrow> Inr (delete_key k db)))"

subsection \<open>Maintenance sweeps\<close>

text \<open>
  \<^verbatim>\<open>Date.now() - (days * 24 * 60 * 60 * 1000)\<close>, with the reading of the clock passed
  in as \<open>now\<close>.
\<close>

definition cutoff_of :: "int \<Rightarrow> int \<Rightarrow> int" where
  "cutoff_of now days = now - (days * 24 * 60 * 60 * 1000)"

text \<open>\<^verbatim>\<open>entry.clientPhoto\<close> as a condition: defined and not the empty string.\<close>

definition has_photo :: "ClientEntry \<Rightarrow> bool" where
  "has_photo entry = (case clientPhoto entry of None \<Rightarrow> False | Some p \<Rightarrow> p \<noteq> [])"

text \<open>
  The cursor loops. The cursor visits the records that were in the store when it was
  opened, in key order (first argument); the pair is the running count (the variable count) and the store.
\<close>

fun strip_cursor :: "int \<Rightarrow> ClientEntry list \<Rightarrow> nat \<times> ClientEntry list \<Rightarrow> nat \<times> ClientEntry list" where
  "strip_cursor cutoff [] (cnt, db) = (cnt, db)"
| "strip_cursor cutoff (entry # rest) (cnt, db) =
     (if timestamp entry < cutoff \<and> has_photo entry
      then strip_cursor cutoff rest (cnt + 1, put (entry\<lparr>clientPhoto := None\<rparr>) db)
      else strip_cursor cutoff rest (cnt, db))"

definition stripOldPhotos :: "db_io \<Rightarrow> int \<Rightarrow> int \<Rightarrow> ClientEntry list \<Rightarrow> failure + nat \<times> ClientEntry list" where
  "stripOldPhotos io now days db =
     (case openDB (open_db io) of
        Inl e \<Rightarrow> Inl e
      | Inr _ \<Rightarrow>
          (case request_fault io of
             Some e \<Rightarrow> Inl e
           | None \<Rightarrow> Inr (strip_cursor (cutoff_of now days) db (0, db))))"

fun delete_cursor :: "int \<Rightarrow> ClientEntry list \<Rightarrow> nat \<times> ClientEntry list \<Rightarrow> nat \<times> ClientEntry list" where
  "delete_cursor cutoff [] (cnt, db) = (cnt, db)"
| "delete_cursor cutoff (entry # rest) (cnt, db) =
     (if timestamp entry < cutoff
      then delete_cursor cutoff rest (cnt + 1, delete_key (entry_id entry) db)
      else delete_cursor cutoff rest (cnt, db))"

definition deleteOldRecords :: "db_io \<Rightarrow> int \<Rightarrow> int \<Rightarrow> ClientEntry list \<Rightarrow> failure + nat \<times> ClientEntry list" where
  "deleteOldRecords io now days db =
     (case openDB (open_db io) of
        Inl e \<Rightarrow> Inl e
      | Inr _ \<Rightarrow>
          (case request_fault io of
             Some e \<Rightarrow> Inl e
           | None \<Rightarrow> Inr (delete_cursor (cutoff_of now days) db (0, db))))"

subsection \<open>Background images\<close>

text \<open>
  The object store 'backgrounds' may be missing (\<open>None\<close>). In getAllBackgrounds the
  promise of the read is returned from inside the try block without being awaited, so
  only a failure of \<^verbatim>\<open>await openDB()\<close> reaches the catch clause; a rejection of the
  returned promise (request.onerror) settles the promise of getAllBackgrounds itself.
\<close>

definition getAllBackgrounds :: "db_io \<Rightarrow> BackgroundImage list option \<Rightarrow> failure + BackgroundImage list" where
  "getAllBackgrounds io bgs =
     (case openDB (open_db io) of
        Inl e \<Rightarrow> Inr []
      | Inr _ \<Rightarrow>
          (case bgs of
             None \<Rightarrow> Inr []
           | Some result \<Rightarrow>
               (case request_fault io of
                  Some e \<Rightarrow> Inl e
                | None \<Rightarrow> Inr result)))"

section \<open>The Fallback tier (localStorage key 'yatra_entries_backup')\<close>

text \<open>
  The item is a string. The program only ever writes \<^verbatim>\<open>JSON.stringify\<close> of a list of
  records to it and reads it back with \<^verbatim>\<open>JSON.parse\<close>, so the item is modelled by what
  parsing it gives: no item (getItem returns null), the list of records it encodes, or a
  text on which JSON.parse throws the given value. Records survive the round trip
  unchanged: a clientPhoto that is undefined is dropped by stringify and is undefined
  again after parse.
\<close>

datatype ls_item = Absent | Stored "ClientEntry list" | Corrupt failure

record ls_io =
  getItem_fault :: "failure option"
  setItem_fault :: "failure option"

text \<open>\<^verbatim>\<open>JSON.parse(localStorage.getItem('yatra_entries_backup') || '[]')\<close>\<close>

definition read_backup_or_empty :: "ls_io \<Rightarrow> ls_item \<Rightarrow> failure + ClientEntry list" where
  "read_backup_or_empty ls item =
     (case getItem_fault ls of
        Some e \<Rightarrow> Inl e
      | None \<Rightarrow>
          (case item of
             Absent \<Rightarrow> Inr []
           | Stored xs \<Rightarrow> Inr xs
           | Corrupt e \<Rightarrow> Inl e))"

text \<open>\<^verbatim>\<open>localStorage.setItem('yatra_entries_backup', JSON.stringify(data))\<close>\<close>

definition write_backup :: "ls_io \<Rightarrow> ClientEntry list \<Rightarrow> failure + ls_item" where
  "write_backup ls data =
     (case setItem_fault ls of
        Some e \<Rightarrow> Inl e
      | None \<Rightarrow> Inr (Stored data))"

section \<open>The application (App.tsx)\<close>

datatype ViewState = home | add_client | ledger | face_search

datatype alert =
    SavedToLocalBackup
  | ErrorSavingRecord "string option"
  | ErrorDeletingRecord
  | StillCannotSave

datatype console_line =
    WarnIndexedDBUnavailable
  | ErrorStorageUnavailable failure
  | WarnSaveFailed failure

text \<open>
  The persisted state of both tiers and the state of the App component: the stores, the
  React state variables the handlers set, the alerts shown and the console lines that
  App.tsx writes (most recent first; what db.ts logs on its own is not recorded).
\<close>

record world =
  clients :: "ClientEntry list"
  backgrounds :: "BackgroundImage list option"
  backup :: ls_item
  entries :: "ClientEntry list"
  bgImages :: "BackgroundImage list"
  loadingEntries :: bool
  showStorageModal :: bool
  failedEntry :: "ClientEntry option"
  view :: ViewState
  alerts :: "alert list"
  console :: "console_line list"

text \<open>A page load: the stores persist, the component state starts from its useState values.\<close>

definition mount :: "world \<Rightarrow> world" where
  "mount w = w\<lparr>entries := [], bgImages := [], loadingEntries := True,
     showStorageModal := False, failedEntry := None, view := home,
     alerts := [], console := []\<rparr>"

subsection \<open>loadData\<close>

text \<open>
  The effect run on mount. Each of the two dbService calls has its own platform
  behaviour. A failure of either call enters the catch clause, which reads the Fallback
  item; \<^verbatim>\<open>if (localData)\<close> skips a missing item.
\<close>

definition loadData_fallback :: "ls_io \<Rightarrow> world \<Rightarrow> world" where
  "loadData_fallback ls w =
     (let w1 = w\<lparr>console := WarnIndexedDBUnavailable # console w\<rparr> in
      case getItem_fault ls of
        Some lsErr \<Rightarrow> w1\<lparr>console := ErrorStorageUnavailable lsErr # console w1\<rparr>
      | None \<Rightarrow>
          (case backup w1 of
             Absent \<Rightarrow> w1
           | Stored xs \<Rightarrow> w1\<lparr>entries := xs\<rparr>
           | Corrupt lsErr \<Rightarrow> w1\<lparr>console := ErrorStorageUnavailable lsErr # console w1\<rparr>))"

definition loadData :: "db_io \<Rightarrow> db_io \<Rightarrow> ls_io \<Rightarrow> world \<Rightarrow> world" where
  "loadData io_clients io_bgs ls w =
     (let w' =
        (case getAllClients io_clients (clients w) of
           Inl err \<Rightarrow> loadData_fallback ls w
         | Inr data \<Rightarrow>
             (let w1 = w\<lparr>entries := data\<rparr> in
              case getAllBackgrounds io_bgs (backgrounds w1) of
                Inl err \<Rightarrow> loadData_fallback ls w1
              | Inr bgs \<Rightarrow> w1\<lparr>bgImages := bgs\<rparr>))
      in w'\<lparr>loadingEntries := False\<rparr>)"

text \<open>refreshData has no catch clause: a failure of getAllClients rejects its promise.\<close>

definition refreshData :: "db_io \<Rightarrow> world \<Rightarrow> failure + world" where
  "refreshData io w =
     (case getAllClients io (clients w) of
        Inl e \<Rightarrow> Inl e
      | Inr data \<Rightarrow> Inr (w\<lparr>entries := data\<rparr>))"

subsection \<open>handleSaveEntry\<close>

text \<open>
  The storage part of the inner try block: read the item (a missing item counts as the
  empty list), put the new record in front, write the list back. Either step may throw
  into the one catch clause for lsErr.
\<close>

definition backup_save :: "ls_io \<Rightarrow> ClientEntry \<Rightarrow> ls_item \<Rightarrow> failure + ls_item" where
  "backup_save ls newEntry item =
     (case read_backup_or_empty ls item of
        Inl lsErr \<Rightarrow> Inl lsErr
      | Inr currentData \<Rightarrow>
          (let updatedData = newEntry # currentData
           in write_backup ls updatedData))"

definition handleSaveEntry :: "db_io \<Rightarrow> ls_io \<Rightarrow> ClientEntry \<Rightarrow> world \<Rightarrow> bool \<times> world" where
  "handleSaveEntry io ls newEntry w =
     (case saveClient io newEntry (clients w) of
        Inr db' \<Rightarrow> (True, w\<lparr>clients := db', entries := newEntry # entries w\<rparr>)
      | Inl err \<Rightarrow>
          if is_quota_failure err
          then (False, w\<lparr>failedEntry := Some newEntry, showStorageModal := True\<rparr>)
          else
            (let w1 = w\<lparr>console := WarnSaveFailed err # console w\<rparr> in
             case backup_save ls newEntry (backup w1) of
               Inr item \<Rightarrow>
                 (True, w1\<lparr>backup := item, entries := newEntry # entries w1,
                    alerts := SavedToLocalBackup # alerts w1\<rparr>)
             | Inl lsErr \<Rightarrow>
                 if is_quota_failure lsErr
                 then (False, w1\<lparr>failedEntry := Some newEntry, showStorageModal := True\<rparr>)
                 else (False, w1\<lparr>alerts := ErrorSavingRecord (message lsErr) # alerts w1\<rparr>)))"

subsection \<open>handleDeleteEntry\<close>

text \<open>
  The callback handed to requestConfirm, run when the user confirms. The inner try block
  has an empty catch clause. (The confirmation dialog itself is not part of the state.)
\<close>

definition prune_backup :: "ls_io \<Rightarrow> int \<Rightarrow> ls_item \<Rightarrow> ls_item" where
  "prune_backup ls k item =
     (case read_backup_or_empty ls item of
        Inl e \<Rightarrow> item
      | Inr localData \<Rightarrow>
          (let newLocalData = filter (\<lambda>e. entry_id e \<noteq> k) localData
           in case write_backup ls newLocalData of
                Inl e \<Rightarrow> item
              | Inr item' \<Rightarrow> item'))"

definition handleDeleteEntry :: "db_io \<Rightarrow> ls_io \<Rightarrow> int \<Rightarrow> world \<Rightarrow> world" where
  "handleDeleteEntry io ls k w =
     (case deleteClient io k (clients w) of
        Inl e \<Rightarrow> w\<lparr>alerts := ErrorDeletingRecord # alerts w\<rparr>
      | Inr db' \<Rightarrow>
          w\<lparr>clients := db',
            backup := prune_backup ls k (backup w),
            entries := filter (\<lambda>e. entry_id e \<noteq> k) (entries w)\<rparr>)"

subsection \<open>StorageRecoveryModal: handleSaveTextOnly\<close>

text \<open>
  The modal is rendered with the failedEntry of the App state; onSuccess is the callback
  App passes to it.
\<close>

definition onSuccess :: "ClientEntry option \<Rightarrow> world \<Rightarrow> world" where
  "onSuccess entry w =
     (let w1 = (case entry of
                  None \<Rightarrow> w
                | Some e \<Rightarrow> w\<lparr>entries := e # entries w, view := ledger\<rparr>)
      in w1\<lparr>showStorageModal := False, failedEntry := None\<rparr>)"

definition handleSaveTextOnly :: "db_io \<Rightarrow> ClientEntry \<Rightarrow> world \<Rightarrow> world" where
  "handleSaveTextOnly io failed w =
     (let entryNoPhoto = failed\<lparr>clientPhoto := None\<rparr> in
      case saveClient io entryNoPhoto (clients w) of
        Inl e \<Rightarrow> w\<lparr>alerts := StillCannotSave # alerts w\<rparr>
      | Inr db' \<Rightarrow> onSuccess (Some entryNoPhoto) (w\<lparr>clients := db'\<rparr>))"

subsection \<open>AddClientView: handleSubmit\<close>

text \<open>
  The record built on submit. \<open>now\<close> is the reading of Date.now() and \<open>rnd\<close> the value
  of Math.random(), a fraction with \<open>0 \<le> rnd < 1\<close>. \<^verbatim>\<open>signature || null\<close> turns the
  empty signature into null.
\<close>

definition uniqueId :: "int \<Rightarrow> rat \<Rightarrow> int" where
  "uniqueId now rnd = now + \<lfloor>rnd * 1000\<rfloor>"

record form_data =
  form_code :: string
  form_name :: string
  form_phone :: string
  form_address :: string
  form_plan :: string
  form_payment :: string
  form_photo :: "string option"
  form_signature :: string

definition newEntry_of :: "int \<Rightarrow> rat \<Rightarrow> form_data \<Rightarrow> ClientEntry" where
  "newEntry_of now rnd f =
     \<lparr>entry_id = uniqueId now rnd,
      uniqueCode = form_code f,
      clientName = form_name f,
      phone = form_phone f,
      address = form_address f,
      servicePlan = form_plan f,
      paymentDetails = form_payment f,
      clientPhoto = form_photo f,
      signatureImage = (if form_signature f = [] then None else Some (form_signature f)),
      timestamp = now\<rparr>"

section \<open>Auxiliary notions for the statements\<close>

text \<open>What one step of the stripOldPhotos cursor loop leaves in place of a record.\<close>

definition strip_entry :: "int \<Rightarrow> ClientEntry \<Rightarrow> ClientEntry" where
  "strip_entry cutoff e =
     (if timestamp e < cutoff \<and> has_photo e then e\<lparr>clientPhoto := None\<rparr> else e)"

text \<open>Sample values for the worked instances below.\<close>

definition io_ok :: db_io where
  "io_ok = \<lparr>open_db = Opened, request_fault = None\<rparr>"

text \<open>The open request of the database fails (a failure that may pass).\<close>

definition io_open_fails :: db_io where
  "io_open_fails = \<lparr>open_db = OpenRequestError, request_fault = None\<rparr>"

definition ls_ok :: ls_io where
  "ls_ok = \<lparr>getItem_fault = None, setItem_fault = None\<rparr>"

definition quota_exception :: failure where
  "quota_exception =
     \<lparr>isDOMException = True, code = Some 22, name = Some ''QuotaExceededError'',
      message = Some ''The quota has been exceeded.''\<rparr>"

definition io_quota :: db_io where
  "io_quota = \<lparr>open_db = Opened, request_fault = Some quota_exception\<rparr>"

definition sample_entry :: "int \<Rightarrow> int \<Rightarrow> string option \<Rightarrow> ClientEntry" where
  "sample_entry k ts photo =
     \<lparr>entry_id = k, uniqueCode = ''YATRA-03AB1C'', clientName = ''Asha'',
      phone = ''5550100'', address = [], servicePlan = ''Yamuna Pujan'',
      paymentDetails = ''cash'', clientPhoto = photo, signatureImage = None,
      timestamp = ts\<rparr>"

definition empty_world :: world where
  "empty_world =
     \<lparr>clients = [], backgrounds = Some [], backup = Absent, entries = [], bgImages = [],
      loadingEntries = True, showStorageModal = False, failedEntry = None, view = home,
      alerts = [], console = []\<rparr>"

text \<open>
  The specification's wording "a failure carrying a recognized quota code/name", taken
  by itself: code 22 or 1014, or name 'QuotaExceededError' or
  'NS_ERROR_DOM_QUOTA_REACHED', on any kind of failure value.
\<close>

definition carries_quota_code_or_name :: "failure \<Rightarrow> bool" where
  "carries_quota_code_or_name e =
     (code e = Some 22 \<or> code e = Some 1014 \<or>
      name e = Some ''QuotaExceededError'' \<or> name e = Some ''NS_ERROR_DOM_QUOTA_REACHED'')"

text \<open>
  A failure that is not a DOMException but carries the quota code and name, as a wrapper
  library may throw: \<^verbatim>\<open>Object.assign(new Error('Storage is FULL'),
  {name: 'QuotaExceededError', code: 22})\<close>.
\<close>

definition plain_quota_named_error :: failure where
  "plain_quota_named_error =
     \<lparr>isDOMException = False, code = Some 22, name = Some ''QuotaExceededError'',
      message = Some ''Storage is FULL''\<rparr>"

definition ls_full :: ls_io where
  "ls_full = \<lparr>getItem_fault = None, setItem_fault = Some quota_exception\<rparr>"

definition invalid_state_exception :: failure where
  "invalid_state_exception =
     \<lparr>isDOMException = True, code = Some 11, name = Some ''InvalidStateError'',
      message = Some ''The object is in an invalid state.''\<rparr>"

definition ls_broken :: ls_io where
  "ls_broken = \<lparr>getItem_fault = None, setItem_fault = Some invalid_state_exception\<rparr>"

definition recent_entry :: ClientEntry where
  "recent_entry = sample_entry 1699136000855 1699136000000 (Some ''data:image/jpeg;base64,AAAA'')"

definition older_entry :: ClientEntry where
  "older_entry = sample_entry 1665440000417 1665440000000 (Some ''data:image/jpeg;base64,BBBB'')"

definition security_error :: failure where
  "security_error =
     \<lparr>isDOMException = True, code = Some 18, name = Some ''SecurityError'',
      message = Some ''The operation is insecure.''\<rparr>"

definition ls_blocked :: ls_io where
  "ls_blocked = \<lparr>getItem_fault = Some security_error, setItem_fault = None\<rparr>"

definition primary_world :: world where
  "primary_world = empty_world\<lparr>clients := [older_entry, recent_entry]\<rparr>"

text \<open>
  The state after one save, and after two saves, made while the database fails to open,
  so that both are served by the Fallback tier. In the second state the record saved
  last carries the earlier timestamp (the device clock was set back between the saves).
\<close>

definition one_backup_save :: world where
  "one_backup_save = snd (handleSaveEntry io_open_fails ls_ok recent_entry empty_world)"

definition two_backup_saves :: world where
  "two_backup_saves = snd (handleSaveEntry io_open_fails ls_ok older_entry one_backup_save)"

definition sample_form :: "string \<Rightarrow> form_data" where
  "sample_form n =
     \<lparr>form_code = ''YATRA-03AB1C'', form_name = n, form_phone = ''5550100'',
      form_address = [], form_plan = ''Yamuna Pujan'', form_payment = ''cash'',
      form_photo = None, form_signature = []\<rparr>"

text \<open>The state in which the storage dialog is open: a save has just failed on quota.\<close>

definition quota_decision_world :: world where
  "quota_decision_world = snd (handleSaveEntry io_quota ls_ok recent_entry empty_world)"

section \<open>Properties of the classifier\<close>

lemma starts_with_iff: "starts_with s p \<longleftrightarrow> (\<exists>post. s = p @ post)"
  by (induction s p rule: starts_with.induct) auto

lemma includes_str_iff: "includes_str s sub \<longleftrightarrow> (\<exists>pre post. s = pre @ sub @ post)"
proof (induction s)
  case Nil
  then show ?case by auto
next
  case (Cons c cs)
  note IH = Cons.IH
  show ?case
  proof
    assume "includes_str (c # cs) sub"
    then consider "starts_with (c # cs) sub" | "includes_str cs sub" by auto
    then show "\<exists>pre post. c # cs = pre @ sub @ post"
    proof cases
      case 1
      then obtain post where "c # cs = sub @ post" by (auto simp: starts_with_iff)
      then have "c # cs = [] @ sub @ post" by simp
      then show ?thesis by blast
    next
      case 2
      then obtain pre post where "cs = pre @ sub @ post" using IH by auto
      then have "c # cs = (c # pre) @ sub @ post" by simp
      then show ?thesis by blast
    qed
  next
    assume "\<exists>pre post. c # cs = pre @ sub @ post"
    then obtain pre post where eq: "c # cs = pre @ sub @ post" by blast
    show "includes_str (c # cs) sub"
    proof (cases pre)
      case Nil
      with eq have "starts_with (c # cs) sub" by (auto simp: starts_with_iff)
      then show ?thesis by simp
    next
      case (Cons p ps)
      with eq have "cs = ps @ sub @ post" by simp
      then have "includes_str cs sub" using IH by blast
      then show ?thesis by simp
    qed
  qed
qed

lemma includes_lower_iff:
  "includes_str (toLowerCase m) sub \<longleftrightarrow> (\<exists>pre mid post. m = pre @ mid @ post \<and> toLowerCase mid = sub)"
proof
  assume "includes_str (toLowerCase m) sub"
  then obtain p q where "map lower_char m = p @ sub @ q"
    by (auto simp: includes_str_iff toLowerCase_def)
  then obtain pre r where m: "m = pre @ r" and r: "sub @ q = map lower_char r"
    by (auto simp: map_eq_append_conv)
  from r obtain mid post where "r = mid @ post" and "map lower_char mid = sub"
    by (auto simp: append_eq_map_conv)
  with m show "\<exists>pre mid post. m = pre @ mid @ post \<and> toLowerCase mid = sub"
    by (auto simp: toLowerCase_def)
next
  assume "\<exists>pre mid post. m = pre @ mid @ post \<and> toLowerCase mid = sub"
  then obtain pre mid post where "m = pre @ mid @ post" and "toLowerCase mid = sub" by blast
  then have "toLowerCase m = toLowerCase pre @ sub @ toLowerCase post"
    by (auto simp: toLowerCase_def)
  then show "includes_str (toLowerCase m) sub"
    unfolding includes_str_iff by blast
qed

lemma is_quota_failure_iff:
  "is_quota_failure err \<longleftrightarrow>
     (isDOMException err \<and> carries_quota_code_or_name err) \<or>
     (\<exists>m pre mid post. message err = Some m \<and> m = pre @ mid @ post \<and> toLowerCase mid = ''quota'')"
  by (cases "message err")
     (auto simp: is_quota_failure_def isQuotaError_def carries_quota_code_or_name_def includes_lower_iff)

lemma Classify_cases: "Classify err = Other \<longleftrightarrow> Classify err \<noteq> Quota"
  by (simp add: Classify_def)

lemma Classify_Quota: "Classify err = Quota \<longleftrightarrow> is_quota_failure err"
  by (simp add: Classify_def)

lemma Classify_Other: "Classify err = Other \<longleftrightarrow> \<not> is_quota_failure err"
  by (simp add: Classify_def)

section \<open>Properties of the Primary store\<close>


lemma put_keys: "set (map entry_id (put c db)) = insert (entry_id c) (set (map entry_id db))"
  by (induction db) auto

lemma wf_put: "wf_store db \<Longrightarrow> wf_store (put c db)"
  unfolding wf_store_def
proof (induction db)
  case Nil
  then show ?case by simp
next
  case (Cons x xs)
  have keys: "set (map entry_id (put c xs)) = insert (entry_id c) (set (map entry_id xs))"
    by (rule put_keys)
  from Cons show ?case using keys by (auto simp del: set_map)
qed

lemma wf_delete_key: "wf_store db \<Longrightarrow> wf_store (delete_key k db)"
  by (simp add: wf_store_def delete_key_def sorted_wrt_map sorted_wrt_filter)

lemma wf_empty: "wf_store []"
  by (simp add: wf_store_def)

lemma put_same_key: "wf_store db \<Longrightarrow> filter (\<lambda>e. entry_id e = entry_id c) (put c db) = [c]"
  unfolding wf_store_def
  by (induction db) (auto simp: filter_empty_conv)

lemma put_in_place:
  "wf_store (pre @ e # rest) \<Longrightarrow> entry_id e' = entry_id e \<Longrightarrow> put e' (pre @ e # rest) = pre @ e' # rest"
  unfolding wf_store_def
  by (induction pre) (auto simp: sorted_wrt_append)

lemma strip_entry_id: "entry_id (strip_entry cutoff e) = entry_id e"
  by (simp add: strip_entry_def)

lemma strip_cursor_eq:
  "wf_store (pre @ rem) \<Longrightarrow>
   strip_cursor cutoff rem (n, pre @ rem) =
     (n + length (filter (\<lambda>e. timestamp e < cutoff \<and> has_photo e) rem),
      pre @ map (strip_entry cutoff) rem)"
proof (induction rem arbitrary: n pre)
  case Nil
  then show ?case by simp
next
  case (Cons e rest)
  let ?e' = "strip_entry cutoff e"
  have wf': "wf_store ((pre @ [?e']) @ rest)"
    using Cons.prems by (simp add: wf_store_def strip_entry_id)
  show ?case
  proof (cases "timestamp e < cutoff \<and> has_photo e")
    case True
    then have e': "?e' = e\<lparr>clientPhoto := None\<rparr>" by (simp add: strip_entry_def)
    have "put (e\<lparr>clientPhoto := None\<rparr>) (pre @ e # rest) = pre @ e\<lparr>clientPhoto := None\<rparr> # rest"
      using Cons.prems by (intro put_in_place) simp_all
    then have "strip_cursor cutoff (e # rest) (n, pre @ e # rest) =
          strip_cursor cutoff rest (n + 1, (pre @ [?e']) @ rest)"
      using True e' by simp
    also have "\<dots> = (n + 1 + length (filter (\<lambda>e. timestamp e < cutoff \<and> has_photo e) rest),
         (pre @ [?e']) @ map (strip_entry cutoff) rest)"
      using wf' by (rule Cons.IH)
    finally show ?thesis using True by simp
  next
    case False
    then have e': "?e' = e" by (auto simp: strip_entry_def)
    have "strip_cursor cutoff (e # rest) (n, pre @ e # rest) =
          strip_cursor cutoff rest (n, (pre @ [?e']) @ rest)"
      using False e' by auto
    also have "\<dots> = (n + length (filter (\<lambda>e. timestamp e < cutoff \<and> has_photo e) rest),
         (pre @ [?e']) @ map (strip_entry cutoff) rest)"
      using wf' by (rule Cons.IH)
    finally show ?thesis using False by auto
  qed
qed

lemma delete_cursor_eq:
  "delete_cursor cutoff rem (n, db) =
     (n + length (filter (\<lambda>e. timestamp e < cutoff) rem),
      filter (\<lambda>x. entry_id x \<notin> entry_id ` {e \<in> set rem. timestamp e < cutoff}) db)"
proof (induction rem arbitrary: n db)
  case Nil
  then show ?case by simp
next
  case (Cons e rest)
  show ?case
  proof (cases "timestamp e < cutoff")
    case True
    have "filter (\<lambda>x. entry_id x \<notin> entry_id ` {e \<in> set rest. timestamp e < cutoff}) (delete_key (entry_id e) db)
        = filter (\<lambda>x. entry_id x \<notin> entry_id ` {e' \<in> set (e # rest). timestamp e' < cutoff}) db"
      using True by (auto simp: delete_key_def intro!: filter_cong)
    then show ?thesis using True Cons.IH by simp
  next
    case False
    have "{e' \<in> set (e # rest). timestamp e' < cutoff} = {e \<in> set rest. timestamp e < cutoff}"
      using False by auto
    then show ?thesis using False Cons.IH by simp
  qed
qed

lemma wf_store_inj: "wf_store db \<Longrightarrow> x \<in> set db \<Longrightarrow> y \<in> set db \<Longrightarrow> entry_id x = entry_id y \<Longrightarrow> x = y"
proof -
  assume wf: "wf_store db" and x: "x \<in> set db" and y: "y \<in> set db" and k: "entry_id x = entry_id y"
  have "distinct (map entry_id db)"
    using wf unfolding wf_store_def strict_sorted_iff by blast
  then have "inj_on entry_id (set db)" by (simp add: distinct_map)
  then show "x = y" using x y k by (auto dest: inj_onD)
qed

lemma delete_cursor_all:
  "wf_store db \<Longrightarrow>
   delete_cursor cutoff db (0, db) =
     (length (filter (\<lambda>e. timestamp e < cutoff) db), filter (\<lambda>e. \<not> timestamp e < cutoff) db)"
proof -
  assume wf: "wf_store db"
  have "filter (\<lambda>x. entry_id x \<notin> entry_id ` {e \<in> set db. timestamp e < cutoff}) db
      = filter (\<lambda>e. \<not> timestamp e < cutoff) db"
  proof (rule filter_cong[OF refl])
    fix x assume x: "x \<in> set db"
    show "(entry_id x \<notin> entry_id ` {e \<in> set db. timestamp e < cutoff}) = (\<not> timestamp x < cutoff)"
      using wf_store_inj[OF wf x] x by (auto simp: image_iff)
  qed
  then show ?thesis by (simp add: delete_cursor_eq)
qed

lemma cutoff_of_eq: "cutoff_of now d = now - d * 86400000"
  by (simp add: cutoff_of_def)

lemma wf_store_strip: "wf_store db \<Longrightarrow> wf_store (map (strip_entry c) db)"
  by (simp add: wf_store_def strip_entry_id comp_def)

lemma strip_entry_done: "\<not> (timestamp (strip_entry c e) < c \<and> has_photo (strip_entry c e))"
  by (simp add: strip_entry_def has_photo_def)

lemma strip_entry_idem: "strip_entry c (strip_entry c e) = strip_entry c e"
  using strip_entry_done[of c e] by (auto simp: strip_entry_def[of c "strip_entry c e"])

lemma strip_cursor_all:
  "wf_store db \<Longrightarrow>
   strip_cursor c db (0, db) =
     (length (filter (\<lambda>e. timestamp e < c \<and> has_photo e) db), map (strip_entry c) db)"
  using strip_cursor_eq[of "[]" db c 0] by simp

section \<open>Capacity recovery: deleteOldRecords and stripOldPhotos\<close>

text \<open>
  Claim C5. When the platform does not fail the call, deleteOldRecords with threshold
  \<open>d\<close> at clock reading \<open>now\<close> deletes exactly the records whose timestamp is
  strictly less than \<open>now - d * 86400000\<close>, resolves with their number, and leaves the
  other records as they were, in their order.
\<close>

theorem deleteOldRecords_removes_exactly_old:
  assumes "wf_store db" and "open_db io = Opened" and "request_fault io = None"
  shows "deleteOldRecords io now d db =
           Inr (length (filter (\<lambda>e. timestamp e < now - d * 86400000) db),
                filter (\<lambda>e. \<not> timestamp e < now - d * 86400000) db)"
  using assms by (simp add: deleteOldRecords_def openDB_def delete_cursor_all cutoff_of_eq)

text \<open>
  The scenario of the specification: records aged 400, 200 and 10 days and a threshold
  of 365 days. The count is 1 and only the 400-day record is gone.
\<close>

theorem deleteOldRecords_scenario:
  "deleteOldRecords io_ok 1700000000000 365
      [sample_entry 1665440000417 1665440000000 (Some ''photo-a''),
       sample_entry 1682720000093 1682720000000 (Some ''photo-b''),
       sample_entry 1699136000855 1699136000000 None]
   = Inr (1, [sample_entry 1682720000093 1682720000000 (Some ''photo-b''),
              sample_entry 1699136000855 1699136000000 None])"
  using deleteOldRecords_removes_exactly_old
    [of "[sample_entry 1665440000417 1665440000000 (Some ''photo-a''),
          sample_entry 1682720000093 1682720000000 (Some ''photo-b''),
          sample_entry 1699136000855 1699136000000 None]" io_ok 1700000000000 365]
  by (simp add: wf_store_def io_ok_def sample_entry_def)

text \<open>
  Claim C6. When the platform does not fail the calls, stripOldPhotos clears clientPhoto
  on exactly the records older than the cutoff that have a non-empty clientPhoto and
  resolves with their number (records without a photo are not counted); a second run with
  the same threshold and clock reading resolves with 0 and leaves the store unchanged.
\<close>

theorem stripOldPhotos_counts_and_idempotent:
  assumes "wf_store db"
    and "open_db io = Opened" and "request_fault io = None"
    and "open_db io' = Opened" and "request_fault io' = None"
  shows "stripOldPhotos io now d db =
           Inr (length (filter (\<lambda>e. timestamp e < now - d * 86400000 \<and> has_photo e) db),
                map (\<lambda>e. if timestamp e < now - d * 86400000 \<and> has_photo e
                          then e\<lparr>clientPhoto := None\<rparr> else e) db)
       \<and> stripOldPhotos io' now d
             (map (\<lambda>e. if timestamp e < now - d * 86400000 \<and> has_photo e
                       then e\<lparr>clientPhoto := None\<rparr> else e) db) =
           Inr (0, map (\<lambda>e. if timestamp e < now - d * 86400000 \<and> has_photo e
                             then e\<lparr>clientPhoto := None\<rparr> else e) db)"
proof -
  let ?c = "now - d * 86400000"
  have m: "map (\<lambda>e. if timestamp e < ?c \<and> has_photo e then e\<lparr>clientPhoto := None\<rparr> else e) db
         = map (strip_entry ?c) db"
    by (simp add: strip_entry_def)
  have first: "stripOldPhotos io now d db =
      Inr (length (filter (\<lambda>e. timestamp e < ?c \<and> has_photo e) db), map (strip_entry ?c) db)"
    using assms by (simp add: stripOldPhotos_def openDB_def strip_cursor_all cutoff_of_eq)
  have none: "filter (\<lambda>e. timestamp e < ?c \<and> has_photo e) (map (strip_entry ?c) db) = []"
    using strip_entry_done[of ?c] by (simp add: filter_empty_conv)
  have again: "map (strip_entry ?c) (map (strip_entry ?c) db) = map (strip_entry ?c) db"
    by (simp add: strip_entry_idem)
  have second: "stripOldPhotos io' now d (map (strip_entry ?c) db) = Inr (0, map (strip_entry ?c) db)"
    using assms wf_store_strip[OF assms(1), of ?c]
    by (simp add: stripOldPhotos_def openDB_def strip_cursor_all cutoff_of_eq none again del: map_map)
  show ?thesis unfolding m using first second by simp
qed

text \<open>
  An instance: of three records only the first is both older than 30 days and has a
  photo; the second run finds nothing.
\<close>

theorem stripOldPhotos_instance:
  "stripOldPhotos io_ok 1700000000000 30
      [sample_entry 1665440000417 1665440000000 (Some ''photo-a''),
       sample_entry 1682720000093 1682720000000 None,
       sample_entry 1699136000855 1699136000000 (Some ''photo-c'')]
   = Inr (1, [sample_entry 1665440000417 1665440000000 None,
              sample_entry 1682720000093 1682720000000 None,
              sample_entry 1699136000855 1699136000000 (Some ''photo-c'')])
   \<and> stripOldPhotos io_ok 1700000000000 30
      [sample_entry 1665440000417 1665440000000 None,
       sample_entry 1682720000093 1682720000000 None,
       sample_entry 1699136000855 1699136000000 (Some ''photo-c'')]
   = Inr (0, [sample_entry 1665440000417 1665440000000 None,
              sample_entry 1682720000093 1682720000000 None,
              sample_entry 1699136000855 1699136000000 (Some ''photo-c'')])"
  using stripOldPhotos_counts_and_idempotent
    [of "[sample_entry 1665440000417 1665440000000 (Some ''photo-a''),
          sample_entry 1682720000093 1682720000000 None,
          sample_entry 1699136000855 1699136000000 (Some ''photo-c'')]" io_ok io_ok 1700000000000 30]
  by (simp add: wf_store_def io_ok_def sample_entry_def has_photo_def)

section \<open>The save cascade and the quota classifier\<close>

lemma backup_save_Inr:
  "backup_save ls R item = Inr item' \<longleftrightarrow>
     (\<exists>old. read_backup_or_empty ls item = Inr old \<and> setItem_fault ls = None \<and> item' = Stored (R # old))"
  by (auto simp: backup_save_def write_backup_def split: sum.splits option.splits)

text \<open>
  Claim C1. handleSaveEntry tries the Primary tier first. If that save succeeds, nothing
  else is touched. If it fails with a failure classified as Quota, the result is the
  decision point (false, failedEntry set to the record, the storage dialog shown): the
  outcome does not depend on the Fallback tier, which is left as it was, and the Primary
  store is not written again. If it fails with a failure classified as Other, the same
  record is put in front of the Fallback list; a Quota failure there gives the decision
  point again, and any other failure gives the error result (false and an error alert).
\<close>

theorem handleSaveEntry_cascade:
  "(saveClient io R (clients w) = Inr db' \<longrightarrow>
      handleSaveEntry io ls R w = (True, w\<lparr>clients := db', entries := R # entries w\<rparr>))
   \<and> (saveClient io R (clients w) = Inl err \<and> Classify err = Quota \<longrightarrow>
      handleSaveEntry io ls R w = (False, w\<lparr>failedEntry := Some R, showStorageModal := True\<rparr>))
   \<and> (saveClient io R (clients w) = Inl err \<and> Classify err = Other \<and>
       backup_save ls R (backup w) = Inr item \<longrightarrow>
      handleSaveEntry io ls R w =
        (True, w\<lparr>console := WarnSaveFailed err # console w, backup := item,
                 entries := R # entries w, alerts := SavedToLocalBackup # alerts w\<rparr>)
      \<and> (\<exists>old. read_backup_or_empty ls (backup w) = Inr old \<and> item = Stored (R # old)))
   \<and> (saveClient io R (clients w) = Inl err \<and> Classify err = Other \<and>
       backup_save ls R (backup w) = Inl lsErr \<and> Classify lsErr = Quota \<longrightarrow>
      handleSaveEntry io ls R w =
        (False, w\<lparr>console := WarnSaveFailed err # console w,
                  failedEntry := Some R, showStorageModal := True\<rparr>))
   \<and> (saveClient io R (clients w) = Inl err \<and> Classify err = Other \<and>
       backup_save ls R (backup w) = Inl lsErr \<and> Classify lsErr = Other \<longrightarrow>
      handleSaveEntry io ls R w =
        (False, w\<lparr>console := WarnSaveFailed err # console w,
                  alerts := ErrorSavingRecord (message lsErr) # alerts w\<rparr>))"
proof -
  have p1: "saveClient io R (clients w) = Inr db' \<longrightarrow>
      handleSaveEntry io ls R w = (True, w\<lparr>clients := db', entries := R # entries w\<rparr>)"
    by (simp add: handleSaveEntry_def)
  have p2: "saveClient io R (clients w) = Inl err \<and> Classify err = Quota \<longrightarrow>
      handleSaveEntry io ls R w = (False, w\<lparr>failedEntry := Some R, showStorageModal := True\<rparr>)"
    by (simp add: handleSaveEntry_def Classify_Quota)
  have p3: "saveClient io R (clients w) = Inl err \<and> Classify err = Other \<and>
       backup_save ls R (backup w) = Inr item \<longrightarrow>
      handleSaveEntry io ls R w =
        (True, w\<lparr>console := WarnSaveFailed err # console w, backup := item,
                 entries := R # entries w, alerts := SavedToLocalBackup # alerts w\<rparr>)
      \<and> (\<exists>old. read_backup_or_empty ls (backup w) = Inr old \<and> item = Stored (R # old))"
  proof (intro impI conjI)
    assume h: "saveClient io R (clients w) = Inl err \<and> Classify err = Other \<and>
       backup_save ls R (backup w) = Inr item"
    then show "handleSaveEntry io ls R w =
        (True, w\<lparr>console := WarnSaveFailed err # console w, backup := item,
                 entries := R # entries w, alerts := SavedToLocalBackup # alerts w\<rparr>)"
      by (simp add: handleSaveEntry_def Classify_Other)
    from h show "\<exists>old. read_backup_or_empty ls (backup w) = Inr old \<and> item = Stored (R # old)"
      by (auto simp: backup_save_Inr)
  qed
  have p4: "saveClient io R (clients w) = Inl err \<and> Classify err = Other \<and>
       backup_save ls R (backup w) = Inl lsErr \<and> Classify lsErr = Quota \<longrightarrow>
      handleSaveEntry io ls R w =
        (False, w\<lparr>console := WarnSaveFailed err # console w,
                  failedEntry := Some R, showStorageModal := True\<rparr>)"
    by (simp add: handleSaveEntry_def Classify_Other Classify_Quota)
  have p5: "saveClient io R (clients w) = Inl err \<and> Classify err = Other \<and>
       backup_save ls R (backup w) = Inl lsErr \<and> Classify lsErr = Other \<longrightarrow>
      handleSaveEntry io ls R w =
        (False, w\<lparr>console := WarnSaveFailed err # console w,
                  alerts := ErrorSavingRecord (message lsErr) # alerts w\<rparr>)"
    by (simp add: handleSaveEntry_def Classify_Other)
  show ?thesis using p1 p2 p3 p4 p5 by blast
qed

text \<open>One run for each of the five outcomes.\<close>

theorem handleSaveEntry_cascade_instances:
  "handleSaveEntry io_ok ls_ok recent_entry empty_world =
     (True, empty_world\<lparr>clients := [recent_entry], entries := [recent_entry]\<rparr>)
   \<and> handleSaveEntry io_quota ls_ok recent_entry empty_world =
     (False, empty_world\<lparr>failedEntry := Some recent_entry, showStorageModal := True\<rparr>)
   \<and> handleSaveEntry io_open_fails ls_ok recent_entry empty_world =
     (True, empty_world\<lparr>console := [WarnSaveFailed (Error ''Failed to open database.'')],
        backup := Stored [recent_entry], entries := [recent_entry], alerts := [SavedToLocalBackup]\<rparr>)
   \<and> handleSaveEntry io_open_fails ls_full recent_entry empty_world =
     (False, empty_world\<lparr>console := [WarnSaveFailed (Error ''Failed to open database.'')],
        failedEntry := Some recent_entry, showStorageModal := True\<rparr>)
   \<and> handleSaveEntry io_open_fails ls_broken recent_entry empty_world =
     (False, empty_world\<lparr>console := [WarnSaveFailed (Error ''Failed to open database.'')],
        alerts := [ErrorSavingRecord (Some ''The object is in an invalid state.'')]\<rparr>)"
proof -
  let ?open_failure = "Error ''Failed to open database.''"
  have c1: "handleSaveEntry io_ok ls_ok recent_entry empty_world =
     (True, empty_world\<lparr>clients := [recent_entry], entries := [recent_entry]\<rparr>)"
    using handleSaveEntry_cascade [of io_ok recent_entry empty_world "[recent_entry]"]
    by (simp add: io_ok_def empty_world_def saveClient_def openDB_def)
  have c2: "handleSaveEntry io_quota ls_ok recent_entry empty_world =
     (False, empty_world\<lparr>failedEntry := Some recent_entry, showStorageModal := True\<rparr>)"
    using handleSaveEntry_cascade [of io_quota recent_entry empty_world _ ls_ok quota_exception]
    by (simp add: io_quota_def quota_exception_def empty_world_def saveClient_def openDB_def
        Classify_def is_quota_failure_def isQuotaError_def)
  have other: "Classify ?open_failure = Other"
    by (simp add: Error_def Classify_def is_quota_failure_def isQuotaError_def toLowerCase_def
        lower_char_def)
  have fails: "saveClient io_open_fails recent_entry (clients empty_world) = Inl ?open_failure"
    by (simp add: io_open_fails_def empty_world_def saveClient_def openDB_def)
  have c3: "handleSaveEntry io_open_fails ls_ok recent_entry empty_world =
     (True, empty_world\<lparr>console := [WarnSaveFailed ?open_failure],
        backup := Stored [recent_entry], entries := [recent_entry], alerts := [SavedToLocalBackup]\<rparr>)"
    using handleSaveEntry_cascade [of io_open_fails recent_entry empty_world _ ls_ok ?open_failure
        "Stored [recent_entry]"] other fails
    by (simp add: backup_save_def read_backup_or_empty_def write_backup_def ls_ok_def empty_world_def)
  have c4: "handleSaveEntry io_open_fails ls_full recent_entry empty_world =
     (False, empty_world\<lparr>console := [WarnSaveFailed ?open_failure],
        failedEntry := Some recent_entry, showStorageModal := True\<rparr>)"
    using handleSaveEntry_cascade [of io_open_fails recent_entry empty_world _ ls_full ?open_failure
        _ quota_exception] other fails
    by (simp add: backup_save_def read_backup_or_empty_def write_backup_def ls_full_def empty_world_def
        quota_exception_def Classify_def is_quota_failure_def isQuotaError_def)
  have c5: "handleSaveEntry io_open_fails ls_broken recent_entry empty_world =
     (False, empty_world\<lparr>console := [WarnSaveFailed ?open_failure],
        alerts := [ErrorSavingRecord (Some ''The object is in an invalid state.'')]\<rparr>)"
    using handleSaveEntry_cascade [of io_open_fails recent_entry empty_world _ ls_broken ?open_failure
        _ invalid_state_exception] other fails
    by (simp add: backup_save_def read_backup_or_empty_def write_backup_def ls_broken_def empty_world_def
        invalid_state_exception_def Classify_def is_quota_failure_def isQuotaError_def
        toLowerCase_def lower_char_def)
  show ?thesis using c1 c2 c3 c4 c5 by simp
qed

text \<open>
  Claim C2, as the code has it. A failure classifies as Quota exactly when it is a
  DOMException carrying code 22 or 1014 or the name 'QuotaExceededError' or
  'NS_ERROR_DOM_QUOTA_REACHED', or when its message has a stretch that is "quota" up to
  letter case; every other failure classifies as Other. handleSaveEntry decides by this
  classification after a Primary failure (it logs the failure and goes on to the Fallback
  tier exactly when the class is Other) and after a Fallback failure (it shows the error
  alert exactly when the class is Other).
\<close>

theorem Classify_quota_iff:
  "(Classify err = Quota \<longleftrightarrow>
      (isDOMException err \<and> carries_quota_code_or_name err) \<or>
      (\<exists>m pre mid post. message err = Some m \<and> m = pre @ mid @ post \<and> toLowerCase mid = ''quota''))
   \<and> (Classify err = Other \<longleftrightarrow> Classify err \<noteq> Quota)
   \<and> (saveClient io R (clients w) = Inl perr \<longrightarrow>
        (console (snd (handleSaveEntry io ls R w)) = console w) = (Classify perr = Quota))
   \<and> (saveClient io R (clients w) = Inl perr \<and> Classify perr = Other \<and>
        backup_save ls R (backup w) = Inl lsErr \<longrightarrow>
        (alerts (snd (handleSaveEntry io ls R w)) = alerts w) = (Classify lsErr = Quota))"
proof -
  have a: "Classify err = Quota \<longleftrightarrow>
      (isDOMException err \<and> carries_quota_code_or_name err) \<or>
      (\<exists>m pre mid post. message err = Some m \<and> m = pre @ mid @ post \<and> toLowerCase mid = ''quota'')"
    by (simp only: Classify_Quota is_quota_failure_iff)
  have c: "saveClient io R (clients w) = Inl perr \<longrightarrow>
        (console (snd (handleSaveEntry io ls R w)) = console w) = (Classify perr = Quota)"
    by (auto simp: handleSaveEntry_def Classify_Quota Let_def split: sum.splits)
  have d: "saveClient io R (clients w) = Inl perr \<and> Classify perr = Other \<and>
        backup_save ls R (backup w) = Inl lsErr \<longrightarrow>
        (alerts (snd (handleSaveEntry io ls R w)) = alerts w) = (Classify lsErr = Quota)"
    by (auto simp: handleSaveEntry_def Classify_Quota Classify_Other Let_def split: sum.splits)
  show ?thesis using a Classify_cases c d by blast
qed

text \<open>
  An instance: a quota DOMException is Quota; the "Failed to open" error of openDB is
  Other, so the Primary failure is logged and the Fallback tier tried, where the quota
  failure of setItem raises no error alert.
\<close>

theorem Classify_quota_iff_instance:
  "Classify quota_exception = Quota
   \<and> Classify (Error ''Failed to open database.'') = Other
   \<and> saveClient io_open_fails recent_entry (clients empty_world) =
        Inl (Error ''Failed to open database.'')
   \<and> console (snd (handleSaveEntry io_open_fails ls_full recent_entry empty_world)) \<noteq> console empty_world
   \<and> backup_save ls_full recent_entry (backup empty_world) = Inl quota_exception
   \<and> alerts (snd (handleSaveEntry io_open_fails ls_full recent_entry empty_world)) = alerts empty_world"
proof -
  let ?open_failure = "Error ''Failed to open database.''"
  have carries: "isDOMException quota_exception \<and> carries_quota_code_or_name quota_exception"
    by (simp add: quota_exception_def carries_quota_code_or_name_def)
  have q: "Classify quota_exception = Quota"
    using Classify_quota_iff [of quota_exception] carries by blast
  have no_code: "\<not> (isDOMException ?open_failure \<and> carries_quota_code_or_name ?open_failure)"
    by (simp add: Error_def)
  have no_text: "\<not> includes_str (toLowerCase ''Failed to open database.'') ''quota''"
    by (simp add: toLowerCase_def lower_char_def)
  have msg: "message ?open_failure = Some ''Failed to open database.''"
    by (simp add: Error_def)
  have other: "Classify ?open_failure = Other"
    using Classify_quota_iff [of ?open_failure] no_code no_text msg
    by (simp add: includes_lower_iff)
  have fails: "saveClient io_open_fails recent_entry (clients empty_world) = Inl ?open_failure"
    by (simp add: io_open_fails_def saveClient_def openDB_def)
  have lsf: "backup_save ls_full recent_entry (backup empty_world) = Inl quota_exception"
    by (simp add: backup_save_def read_backup_or_empty_def write_backup_def ls_full_def empty_world_def)
  have c: "console (snd (handleSaveEntry io_open_fails ls_full recent_entry empty_world)) \<noteq> console empty_world"
    using Classify_quota_iff [of _ io_open_fails recent_entry empty_world ?open_failure ls_full]
      fails other by simp
  have a: "alerts (snd (handleSaveEntry io_open_fails ls_full recent_entry empty_world)) = alerts empty_world"
    using Classify_quota_iff [of _ io_open_fails recent_entry empty_world ?open_failure ls_full quota_exception]
      fails other lsf q by simp
  show ?thesis using q other fails c lsf a by simp
qed

text \<open>
  Claim C2 as worded fails: isQuotaError looks at code and name only on instances of
  DOMException, so a failure of another kind that carries the quota code and name, with
  no "quota" in its message, classifies as Other.
\<close>

theorem Classify_plain_error_counterexample:
  "carries_quota_code_or_name plain_quota_named_error \<and> Classify plain_quota_named_error = Other"
  by (simp add: carries_quota_code_or_name_def plain_quota_named_error_def Classify_def
      is_quota_failure_def isQuotaError_def toLowerCase_def lower_char_def)

section \<open>Loading the ledger\<close>

lemma sort_newest_first_sorted:
  "sorted_wrt (\<lambda>a b. timestamp a \<ge> timestamp b) (sort_newest_first xs)"
proof -
  have "sorted (map (\<lambda>e. - timestamp e) (sort_key (\<lambda>e. - timestamp e) xs))"
    by (rule sorted_sort_key)
  then show ?thesis by (simp add: sort_newest_first_def sorted_map)
qed

lemma mset_sort_newest_first: "mset (sort_newest_first xs) = mset xs"
  by (simp add: sort_newest_first_def)

lemma set_sort_newest_first: "set (sort_newest_first xs) = set xs"
  by (simp add: sort_newest_first_def)

lemma sort_newest_first_Nil: "sort_newest_first [] = []"
  by (simp add: sort_newest_first_def)

lemma getAllClients_Inr: "getAllClients io db = Inr data \<Longrightarrow> data = sort_newest_first db"
  by (auto simp: getAllClients_def split: sum.splits option.splits)

lemma getAllClients_ok: "open_db io = Opened \<Longrightarrow> request_fault io = None \<Longrightarrow> getAllClients io db = Inr (sort_newest_first db)"
  by (simp add: getAllClients_def openDB_def)

lemma mount_stores: "clients (mount w) = clients w" "backgrounds (mount w) = backgrounds w"
  "backup (mount w) = backup w" "entries (mount w) = []" "alerts (mount w) = []" "console (mount w) = []"
  by (simp_all add: mount_def)

lemma loadData_primary:
  "getAllClients ioc (clients w) = Inr data \<Longrightarrow> getAllBackgrounds iob (backgrounds w) = Inr bgs \<Longrightarrow>
   loadData ioc iob ls w = w\<lparr>entries := data, bgImages := bgs, loadingEntries := False\<rparr>"
  by (simp add: loadData_def)

lemma loadData_fallback_read:
  "read_backup_or_empty ls (backup w) = Inr xs \<Longrightarrow> entries w = [] \<Longrightarrow>
   entries (loadData_fallback ls w) = xs"
  by (auto simp: loadData_fallback_def read_backup_or_empty_def Let_def split: option.splits ls_item.splits)

lemma loadData_fallback_fail:
  "read_backup_or_empty ls (backup w) = Inl lsErr \<Longrightarrow>
   loadData_fallback ls w = w\<lparr>console := ErrorStorageUnavailable lsErr # WarnIndexedDBUnavailable # console w\<rparr>"
  by (auto simp: loadData_fallback_def read_backup_or_empty_def Let_def split: option.splits ls_item.splits)

lemma loadData_fallback_alerts: "alerts (loadData_fallback ls w) = alerts w"
  by (auto simp: loadData_fallback_def Let_def split: option.splits ls_item.splits)

lemma loadData_alerts: "alerts (loadData ioc iob ls w) = alerts w"
  by (auto simp: loadData_def loadData_fallback_alerts Let_def split: sum.splits)

lemma loadData_loading: "loadingEntries (loadData ioc iob ls w) = False"
  by (simp add: loadData_def Let_def)

lemma loadData_clients_failed:
  "getAllClients ioc (clients w) = Inl err \<Longrightarrow>
   loadData ioc iob ls w = (loadData_fallback ls w)\<lparr>loadingEntries := False\<rparr>"
  by (simp add: loadData_def)

lemma Classify_open_failure:
  "Classify (Error ''Failed to open database.'') = Other"
  by (simp add: Error_def Classify_def is_quota_failure_def isQuotaError_def toLowerCase_def lower_char_def)

lemma saveClient_open_fails:
  "saveClient io_open_fails R db = Inl (Error ''Failed to open database.'')"
  by (simp add: io_open_fails_def saveClient_def openDB_def)

lemma getAllClients_open_fails:
  "getAllClients io_open_fails db = Inl (Error ''Failed to open database.'')"
  by (simp add: io_open_fails_def getAllClients_def openDB_def)

lemma handleSaveEntry_open_fails:
  "read_backup_or_empty ls_ok (backup w) = Inr old \<Longrightarrow>
   handleSaveEntry io_open_fails ls_ok R w =
     (True, w\<lparr>console := WarnSaveFailed (Error ''Failed to open database.'') # console w,
        backup := Stored (R # old), entries := R # entries w, alerts := SavedToLocalBackup # alerts w\<rparr>)"
  using Classify_open_failure
  by (simp add: handleSaveEntry_def saveClient_open_fails Classify_Other backup_save_def
      write_backup_def ls_ok_def)

lemma backup_one_backup_save: "backup one_backup_save = Stored [recent_entry]"
  using handleSaveEntry_open_fails[of empty_world "[]" recent_entry]
  by (simp add: one_backup_save_def read_backup_or_empty_def ls_ok_def empty_world_def)

lemma backup_two_backup_saves: "backup two_backup_saves = Stored [older_entry, recent_entry]"
  using handleSaveEntry_open_fails[of one_backup_save "[recent_entry]" older_entry]
  by (simp add: two_backup_saves_def read_backup_or_empty_def ls_ok_def backup_one_backup_save)

lemma getAllBackgrounds_ok: "getAllBackgrounds io_ok (Some bgs) = Inr bgs"
  by (simp add: getAllBackgrounds_def io_ok_def openDB_def)

lemma timestamps_samples: "timestamp older_entry = 1665440000000" "timestamp recent_entry = 1699136000000"
  "entry_id older_entry = 1665440000417" "entry_id recent_entry = 1699136000855"
  by (simp_all add: older_entry_def recent_entry_def sample_entry_def)

lemma sort_primary_world: "sort_newest_first [older_entry, recent_entry] = [recent_entry, older_entry]"
  by (simp add: sort_newest_first_def timestamps_samples)

text \<open>
  Claim C4, as the code has it. loadData, run on mount, never raises: it ends with the
  loading flag cleared and shows no alert. When both Primary reads of loadData succeed,
  the ledger is the Primary records sorted newest first by timestamp (a rearrangement of
  the store; empty for an empty store). When the Primary client read fails, the ledger is
  exactly the Fallback list as stored (an absent item counting as the empty list), and
  when the Fallback read fails as well the ledger is empty and only console lines are
  written.
\<close>

theorem loadData_result:
  "(getAllClients ioc (clients w) = Inr data \<and> getAllBackgrounds iob (backgrounds w) = Inr bgs \<longrightarrow>
      entries (loadData ioc iob ls (mount w)) = sort_newest_first (clients w)
      \<and> sorted_wrt (\<lambda>a b. timestamp a \<ge> timestamp b) (entries (loadData ioc iob ls (mount w)))
      \<and> mset (entries (loadData ioc iob ls (mount w))) = mset (clients w))
   \<and> (clients w = [] \<and> open_db ioc = Opened \<and> request_fault ioc = None \<and>
       getAllBackgrounds iob (backgrounds w) = Inr bgs \<longrightarrow>
      entries (loadData ioc iob ls (mount w)) = [])
   \<and> (getAllClients ioc (clients w) = Inl err \<and> read_backup_or_empty ls (backup w) = Inr xs \<longrightarrow>
      entries (loadData ioc iob ls (mount w)) = xs)
   \<and> (getAllClients ioc (clients w) = Inl err \<and> read_backup_or_empty ls (backup w) = Inl lsErr \<longrightarrow>
      entries (loadData ioc iob ls (mount w)) = []
      \<and> console (loadData ioc iob ls (mount w)) = [ErrorStorageUnavailable lsErr, WarnIndexedDBUnavailable])
   \<and> alerts (loadData ioc iob ls (mount w)) = []
   \<and> loadingEntries (loadData ioc iob ls (mount w)) = False"
proof -
  let ?w' = "loadData ioc iob ls (mount w)"
  have p1: "getAllClients ioc (clients w) = Inr data \<and> getAllBackgrounds iob (backgrounds w) = Inr bgs \<longrightarrow>
      entries ?w' = sort_newest_first (clients w)
      \<and> sorted_wrt (\<lambda>a b. timestamp a \<ge> timestamp b) (entries ?w')
      \<and> mset (entries ?w') = mset (clients w)"
  proof (intro impI)
    assume h: "getAllClients ioc (clients w) = Inr data \<and> getAllBackgrounds iob (backgrounds w) = Inr bgs"
    then have "entries ?w' = data"
      using loadData_primary[of ioc "mount w" data iob bgs ls] by (simp add: mount_stores)
    moreover have "data = sort_newest_first (clients w)" using h getAllClients_Inr by blast
    ultimately show "entries ?w' = sort_newest_first (clients w)
      \<and> sorted_wrt (\<lambda>a b. timestamp a \<ge> timestamp b) (entries ?w')
      \<and> mset (entries ?w') = mset (clients w)"
      by (simp add: sort_newest_first_sorted mset_sort_newest_first)
  qed
  have p2: "clients w = [] \<and> open_db ioc = Opened \<and> request_fault ioc = None \<and>
       getAllBackgrounds iob (backgrounds w) = Inr bgs \<longrightarrow> entries ?w' = []"
  proof (intro impI)
    assume h: "clients w = [] \<and> open_db ioc = Opened \<and> request_fault ioc = None \<and>
       getAllBackgrounds iob (backgrounds w) = Inr bgs"
    then have "getAllClients ioc (clients (mount w)) = Inr []"
      by (simp add: getAllClients_ok mount_stores sort_newest_first_Nil)
    then show "entries ?w' = []"
      using h loadData_primary[of ioc "mount w" "[]" iob bgs ls] by (simp add: mount_stores)
  qed
  have p3: "getAllClients ioc (clients w) = Inl err \<and> read_backup_or_empty ls (backup w) = Inr xs \<longrightarrow>
      entries ?w' = xs"
    using loadData_clients_failed[of ioc "mount w" err iob ls]
      loadData_fallback_read[of ls "mount w" xs]
    by (simp add: mount_stores)
  have p4: "getAllClients ioc (clients w) = Inl err \<and> read_backup_or_empty ls (backup w) = Inl lsErr \<longrightarrow>
      entries ?w' = [] \<and> console ?w' = [ErrorStorageUnavailable lsErr, WarnIndexedDBUnavailable]"
    using loadData_clients_failed[of ioc "mount w" err iob ls]
      loadData_fallback_fail[of ls "mount w" lsErr]
    by (simp add: mount_stores)
  have p5: "alerts ?w' = []" by (simp add: loadData_alerts mount_stores)
  have p6: "loadingEntries ?w' = False" by (rule loadData_loading)
  show ?thesis using p1 p2 p3 p4 p5 p6 by blast
qed

text \<open>
  Instances: a Primary read of two records, a Primary read of the empty store, a
  Fallback read, and both reads failing.
\<close>

theorem loadData_result_instances:
  "entries (loadData io_ok io_ok ls_ok (mount primary_world)) = [recent_entry, older_entry]
   \<and> entries (loadData io_ok io_ok ls_ok (mount empty_world)) = []
   \<and> entries (loadData io_open_fails io_ok ls_ok (mount one_backup_save)) = [recent_entry]
   \<and> entries (loadData io_open_fails io_ok ls_blocked (mount one_backup_save)) = []
   \<and> console (loadData io_open_fails io_ok ls_blocked (mount one_backup_save)) =
        [ErrorStorageUnavailable security_error, WarnIndexedDBUnavailable]
   \<and> alerts (loadData io_open_fails io_ok ls_blocked (mount one_backup_save)) = []"
proof -
  have c1: "entries (loadData io_ok io_ok ls_ok (mount primary_world)) = [recent_entry, older_entry]"
    using loadData_result [of io_ok primary_world "[recent_entry, older_entry]" io_ok "[]" ls_ok]
    by (simp add: primary_world_def empty_world_def getAllClients_ok io_ok_def
        getAllBackgrounds_ok[unfolded io_ok_def] sort_primary_world)
  have c2: "entries (loadData io_ok io_ok ls_ok (mount empty_world)) = []"
    using loadData_result [of io_ok empty_world _ io_ok "[]" ls_ok]
    by (simp add: empty_world_def io_ok_def getAllBackgrounds_ok[unfolded io_ok_def])
  have c3: "entries (loadData io_open_fails io_ok ls_ok (mount one_backup_save)) = [recent_entry]"
    using loadData_result [of io_open_fails one_backup_save _ io_ok _ ls_ok
        "Error ''Failed to open database.''" "[recent_entry]"]
    by (simp add: getAllClients_open_fails backup_one_backup_save read_backup_or_empty_def ls_ok_def)
  have c4: "entries (loadData io_open_fails io_ok ls_blocked (mount one_backup_save)) = []
      \<and> console (loadData io_open_fails io_ok ls_blocked (mount one_backup_save)) =
        [ErrorStorageUnavailable security_error, WarnIndexedDBUnavailable]
      \<and> alerts (loadData io_open_fails io_ok ls_blocked (mount one_backup_save)) = []"
    using loadData_result [of io_open_fails one_backup_save _ io_ok _ ls_blocked
        "Error ''Failed to open database.''" _ security_error]
    by (simp add: getAllClients_open_fails read_backup_or_empty_def ls_blocked_def)
  show ?thesis using c1 c2 c3 c4 by simp
qed

text \<open>
  Claim C4 as worded fails on the Fallback path, which does not sort: after two
  Fallback saves of which the later one carries the earlier timestamp, a load served by
  the Fallback tier returns the list in stored order, oldest first.
\<close>

theorem loadData_fallback_order_counterexample:
  "entries (loadData io_open_fails io_open_fails ls_ok (mount two_backup_saves)) = [older_entry, recent_entry]
   \<and> timestamp older_entry < timestamp recent_entry
   \<and> \<not> sorted_wrt (\<lambda>a b. timestamp a \<ge> timestamp b)
         (entries (loadData io_open_fails io_open_fails ls_ok (mount two_backup_saves)))"
proof -
  have e: "entries (loadData io_open_fails io_open_fails ls_ok (mount two_backup_saves)) = [older_entry, recent_entry]"
    using loadData_clients_failed[of io_open_fails "mount two_backup_saves" _ io_open_fails ls_ok]
      loadData_fallback_read[of ls_ok "mount two_backup_saves" "[older_entry, recent_entry]"]
    by (simp add: mount_stores getAllClients_open_fails backup_two_backup_saves
        read_backup_or_empty_def ls_ok_def)
  show ?thesis unfolding e by (simp add: timestamps_samples)
qed

section \<open>Saving, then loading\<close>

lemma count_list_put: "wf_store db \<Longrightarrow> count_list (put R db) R = 1"
  unfolding wf_store_def
proof (induction db)
  case Nil
  then show ?case by simp
next
  case (Cons x xs)
  have notin: "entry_id R \<le> entry_id x \<Longrightarrow> R \<notin> set xs"
    using Cons.prems by auto
  show ?case
  proof (cases "entry_id R < entry_id x")
    case True
    then have "R \<noteq> x" by auto
    then show ?thesis using True notin by (simp add: count_list_0_iff)
  next
    case False
    show ?thesis
    proof (cases "entry_id R = entry_id x")
      case True
      then show ?thesis using notin by (simp add: count_list_0_iff)
    next
      case ne: False
      then have "x \<noteq> R" by auto
      then show ?thesis using False ne Cons by simp
    qed
  qed
qed

lemma count_list_sort_newest_first: "count_list (sort_newest_first xs) R = count_list xs R"
  using mset_sort_newest_first[of xs] count_mset[of "sort_newest_first xs" R] count_mset[of xs R]
  by simp

lemma length_filter_sort_newest_first:
  "length (filter P (sort_newest_first xs)) = length (filter P xs)"
proof -
  have "mset (filter P (sort_newest_first xs)) = mset (filter P xs)"
    by (simp add: mset_sort_newest_first)
  then have "size (mset (filter P (sort_newest_first xs))) = size (mset (filter P xs))"
    by (rule arg_cong)
  then show ?thesis by (simp only: size_mset)
qed

lemma saveClient_Inr: "saveClient io R db = Inr db' \<Longrightarrow> db' = put R db"
  by (auto simp: saveClient_def split: sum.splits option.splits)

lemma read_backup_ok:
  "read_backup_or_empty ls_ok (Stored xs) = Inr xs" "read_backup_or_empty ls_ok Absent = Inr []"
  by (simp_all add: read_backup_or_empty_def ls_ok_def)

lemma empty_world_fields:
  "clients empty_world = []" "backgrounds empty_world = Some []" "backup empty_world = Absent"
  "entries empty_world = []" "alerts empty_world = []" "console empty_world = []"
  by (simp_all add: empty_world_def)

lemma ls_ok_fields: "getItem_fault ls_ok = None" "setItem_fault ls_ok = None"
  by (simp_all add: ls_ok_def)

lemma saveClient_ok: "saveClient io_ok R db = Inr (put R db)"
  by (simp add: saveClient_def io_ok_def openDB_def)

lemma getAllClients_io_ok: "getAllClients io_ok db = Inr (sort_newest_first db)"
  by (simp add: getAllClients_ok io_ok_def)

text \<open>
  Claim C3, as the code has it. A save served by the Primary tier (on a store with one
  record per key), followed by a load served by the Primary tier, yields a ledger that
  holds the record exactly once, and exactly one record with its id. A save served by
  the Fallback tier, followed by a load served by the Fallback tier, yields the record
  in front of the previous Fallback list; it is there exactly once when no record with
  its id was in that list before.
\<close>

theorem save_then_load_includes_once:
  "(wf_store (clients w) \<and> saveClient io R (clients w) = Inr db' \<and>
    getAllClients ioc db' = Inr data \<and> getAllBackgrounds iob (backgrounds w) = Inr bgs \<longrightarrow>
      fst (handleSaveEntry io ls R w)
      \<and> entries (loadData ioc iob ls' (mount (snd (handleSaveEntry io ls R w)))) = data
      \<and> count_list data R = 1
      \<and> length (filter (\<lambda>e. entry_id e = entry_id R) data) = 1)
   \<and> (saveClient io R (clients w) = Inl err \<and> Classify err = Other \<and>
       read_backup_or_empty ls (backup w) = Inr old \<and> setItem_fault ls = None \<and>
       getAllClients ioc (clients w) = Inl err' \<and> getItem_fault ls' = None \<longrightarrow>
      fst (handleSaveEntry io ls R w)
      \<and> entries (loadData ioc iob ls' (mount (snd (handleSaveEntry io ls R w)))) = R # old
      \<and> (entry_id R \<notin> entry_id ` set old \<longrightarrow>
           count_list (entries (loadData ioc iob ls' (mount (snd (handleSaveEntry io ls R w))))) R = 1
           \<and> length (filter (\<lambda>e. entry_id e = entry_id R)
                 (entries (loadData ioc iob ls' (mount (snd (handleSaveEntry io ls R w)))))) = 1))"
proof -
  let ?w' = "snd (handleSaveEntry io ls R w)"
  have p1: "wf_store (clients w) \<and> saveClient io R (clients w) = Inr db' \<and>
    getAllClients ioc db' = Inr data \<and> getAllBackgrounds iob (backgrounds w) = Inr bgs \<longrightarrow>
      fst (handleSaveEntry io ls R w)
      \<and> entries (loadData ioc iob ls' (mount ?w')) = data
      \<and> count_list data R = 1
      \<and> length (filter (\<lambda>e. entry_id e = entry_id R) data) = 1"
  proof (intro impI)
    assume h: "wf_store (clients w) \<and> saveClient io R (clients w) = Inr db' \<and>
      getAllClients ioc db' = Inr data \<and> getAllBackgrounds iob (backgrounds w) = Inr bgs"
    then have res: "handleSaveEntry io ls R w = (True, w\<lparr>clients := db', entries := R # entries w\<rparr>)"
      by (simp add: handleSaveEntry_def)
    have db': "db' = put R (clients w)" using h saveClient_Inr by blast
    have data: "data = sort_newest_first db'" using h getAllClients_Inr by blast
    have load: "entries (loadData ioc iob ls' (mount ?w')) = data"
      using h res loadData_primary[of ioc "mount ?w'" data iob bgs ls'] by (simp add: mount_stores)
    have once: "count_list data R = 1"
      using h by (simp add: data db' count_list_sort_newest_first count_list_put)
    have key: "length (filter (\<lambda>e. entry_id e = entry_id R) data) = 1"
      using h by (simp add: data db' length_filter_sort_newest_first put_same_key)
    show "fst (handleSaveEntry io ls R w)
      \<and> entries (loadData ioc iob ls' (mount ?w')) = data
      \<and> count_list data R = 1
      \<and> length (filter (\<lambda>e. entry_id e = entry_id R) data) = 1"
      using res load once key by simp
  qed
  have p2: "saveClient io R (clients w) = Inl err \<and> Classify err = Other \<and>
       read_backup_or_empty ls (backup w) = Inr old \<and> setItem_fault ls = None \<and>
       getAllClients ioc (clients w) = Inl err' \<and> getItem_fault ls' = None \<longrightarrow>
      fst (handleSaveEntry io ls R w)
      \<and> entries (loadData ioc iob ls' (mount ?w')) = R # old
      \<and> (entry_id R \<notin> entry_id ` set old \<longrightarrow>
           count_list (entries (loadData ioc iob ls' (mount ?w'))) R = 1
           \<and> length (filter (\<lambda>e. entry_id e = entry_id R) (entries (loadData ioc iob ls' (mount ?w')))) = 1)"
  proof (intro impI)
    assume h: "saveClient io R (clients w) = Inl err \<and> Classify err = Other \<and>
       read_backup_or_empty ls (backup w) = Inr old \<and> setItem_fault ls = None \<and>
       getAllClients ioc (clients w) = Inl err' \<and> getItem_fault ls' = None"
    then have bs: "backup_save ls R (backup w) = Inr (Stored (R # old))"
      by (simp add: backup_save_Inr)
    have res: "handleSaveEntry io ls R w =
        (True, w\<lparr>console := WarnSaveFailed err # console w, backup := Stored (R # old),
                 entries := R # entries w, alerts := SavedToLocalBackup # alerts w\<rparr>)"
      using h bs by (simp add: handleSaveEntry_def Classify_Other)
    have rd: "read_backup_or_empty ls' (backup (mount ?w')) = Inr (R # old)"
      using h res by (simp add: mount_stores read_backup_or_empty_def)
    have load: "entries (loadData ioc iob ls' (mount ?w')) = R # old"
      using h res loadData_clients_failed[of ioc "mount ?w'" err' iob ls']
        loadData_fallback_read[OF rd]
      by (simp add: mount_stores)
    have fresh: "entry_id R \<notin> entry_id ` set old \<longrightarrow>
           count_list (R # old) R = 1 \<and> length (filter (\<lambda>e. entry_id e = entry_id R) (R # old)) = 1"
    proof
      assume "entry_id R \<notin> entry_id ` set old"
      then have ids: "\<forall>x\<in>set old. entry_id x \<noteq> entry_id R" by (metis imageI)
      then have "R \<notin> set old" by auto
      then show "count_list (R # old) R = 1 \<and> length (filter (\<lambda>e. entry_id e = entry_id R) (R # old)) = 1"
        using ids by (simp add: count_list_0_iff filter_empty_conv)
    qed
    show "fst (handleSaveEntry io ls R w)
      \<and> entries (loadData ioc iob ls' (mount ?w')) = R # old
      \<and> (entry_id R \<notin> entry_id ` set old \<longrightarrow>
           count_list (entries (loadData ioc iob ls' (mount ?w'))) R = 1
           \<and> length (filter (\<lambda>e. entry_id e = entry_id R) (entries (loadData ioc iob ls' (mount ?w')))) = 1)"
      unfolding load using res fresh by simp
  qed
  show ?thesis using p1 p2 by blast
qed

text \<open>
  Instances: saving a record again over itself in the Primary store, and a first save to
  the Fallback list.
\<close>

theorem save_then_load_instances:
  "count_list (entries (loadData io_ok io_ok ls_ok
       (mount (snd (handleSaveEntry io_ok ls_ok recent_entry primary_world))))) recent_entry = 1
   \<and> count_list (entries (loadData io_open_fails io_ok ls_ok
       (mount (snd (handleSaveEntry io_open_fails ls_ok recent_entry empty_world))))) recent_entry = 1"
proof -
  have wf: "wf_store (clients primary_world)"
    by (simp add: primary_world_def empty_world_def wf_store_def timestamps_samples)
  have sv: "saveClient io_ok recent_entry (clients primary_world) = Inr [older_entry, recent_entry]"
    by (simp add: saveClient_ok primary_world_def empty_world_def timestamps_samples)
  have rd: "getAllClients io_ok [older_entry, recent_entry] = Inr [recent_entry, older_entry]"
    by (simp add: getAllClients_io_ok sort_primary_world)
  have bg: "getAllBackgrounds io_ok (backgrounds primary_world) = Inr []"
    by (simp add: getAllBackgrounds_ok primary_world_def empty_world_def)
  have c1: "count_list (entries (loadData io_ok io_ok ls_ok
       (mount (snd (handleSaveEntry io_ok ls_ok recent_entry primary_world))))) recent_entry = 1"
    using save_then_load_includes_once [where w = primary_world and io = io_ok and R = recent_entry
        and db' = "[older_entry, recent_entry]" and ioc = io_ok and data = "[recent_entry, older_entry]"
        and iob = io_ok and bgs = "[]" and ls = ls_ok and ls' = ls_ok]
      wf sv rd bg by simp
  have c2: "count_list (entries (loadData io_open_fails io_ok ls_ok
       (mount (snd (handleSaveEntry io_open_fails ls_ok recent_entry empty_world))))) recent_entry = 1"
    using save_then_load_includes_once [where w = empty_world and io = io_open_fails
        and R = recent_entry and ioc = io_open_fails and iob = io_ok and ls = ls_ok and ls' = ls_ok
        and err = "Error ''Failed to open database.''" and old = "[]"
        and err' = "Error ''Failed to open database.''"]
      Classify_open_failure
    by (simp add: saveClient_open_fails getAllClients_open_fails read_backup_ok
        ls_ok_fields empty_world_fields)
  show ?thesis using c1 c2 by simp
qed

text \<open>
  Claim C3 as worded fails in two ways. The Fallback save puts the record in front of
  the list and removes nothing, so saving a record that is already in the Fallback list
  leaves it there twice. And a load reads the Primary tier whenever that succeeds, so a
  record saved to the Fallback tier alone is missing from the ledger then.
\<close>

theorem fallback_resave_counterexample:
  "fst (handleSaveEntry io_open_fails ls_ok recent_entry one_backup_save)
   \<and> entries (loadData io_open_fails io_ok ls_ok
        (mount (snd (handleSaveEntry io_open_fails ls_ok recent_entry one_backup_save))))
      = [recent_entry, recent_entry]
   \<and> count_list (entries (loadData io_open_fails io_ok ls_ok
        (mount (snd (handleSaveEntry io_open_fails ls_ok recent_entry one_backup_save))))) recent_entry = 2
   \<and> fst (handleSaveEntry io_open_fails ls_ok recent_entry empty_world)
   \<and> count_list (entries (loadData io_ok io_ok ls_ok
        (mount (snd (handleSaveEntry io_open_fails ls_ok recent_entry empty_world))))) recent_entry = 0"
proof -
  let ?w2 = "snd (handleSaveEntry io_open_fails ls_ok recent_entry one_backup_save)"
  have rd1: "read_backup_or_empty ls_ok (backup one_backup_save) = Inr [recent_entry]"
    by (simp add: backup_one_backup_save read_backup_ok)
  note sv = handleSaveEntry_open_fails[OF rd1, of recent_entry]
  have b2: "backup ?w2 = Stored [recent_entry, recent_entry]" by (simp add: sv)
  have rd2: "read_backup_or_empty ls_ok (backup (mount ?w2)) = Inr [recent_entry, recent_entry]"
    by (simp add: mount_stores b2 read_backup_ok)
  have e2: "entries (loadData io_open_fails io_ok ls_ok (mount ?w2)) = [recent_entry, recent_entry]"
    using loadData_clients_failed[of io_open_fails "mount ?w2" _ io_ok ls_ok]
      loadData_fallback_read[OF rd2]
    by (simp add: mount_stores getAllClients_open_fails)
  have rd0: "read_backup_or_empty ls_ok (backup empty_world) = Inr []"
    by (simp add: empty_world_fields read_backup_ok)
  note sv0 = handleSaveEntry_open_fails[OF rd0, of recent_entry]
  let ?w1 = "snd (handleSaveEntry io_open_fails ls_ok recent_entry empty_world)"
  have cl: "clients (mount ?w1) = []" "backgrounds (mount ?w1) = Some []"
    by (simp_all add: mount_stores sv0 empty_world_fields)
  have e0: "entries (loadData io_ok io_ok ls_ok (mount ?w1)) = []"
    using loadData_primary[of io_ok "mount ?w1" "[]" io_ok "[]" ls_ok]
    by (simp add: cl getAllClients_io_ok sort_newest_first_Nil getAllBackgrounds_ok)
  show ?thesis unfolding e2 e0 by (simp add: sv sv0)
qed

section \<open>Deleting a record\<close>

lemma deleteClient_Inr: "deleteClient io k db = Inr db' \<Longrightarrow> db' = delete_key k db"
  by (auto simp: deleteClient_def split: sum.splits option.splits)

lemma deleteClient_ok: "deleteClient io_ok k db = Inr (delete_key k db)"
  by (simp add: deleteClient_def io_ok_def openDB_def)

lemma deleteClient_open_fails:
  "deleteClient io_open_fails k db = Inl (Error ''Failed to open database.'')"
  by (simp add: deleteClient_def io_open_fails_def openDB_def)

lemma delete_key_absent: "k \<notin> entry_id ` set (delete_key k db)"
  by (auto simp: delete_key_def)

lemma prune_backup_cases:
  "prune_backup ls k item = item \<or>
   (\<exists>old. read_backup_or_empty ls item = Inr old \<and> setItem_fault ls = None \<and>
      prune_backup ls k item = Stored (filter (\<lambda>e. entry_id e \<noteq> k) old))"
  by (auto simp: prune_backup_def write_backup_def Let_def split: sum.splits option.splits)

lemma prune_backup_ok:
  "read_backup_or_empty ls item = Inr old \<Longrightarrow> setItem_fault ls = None \<Longrightarrow>
   prune_backup ls k item = Stored (filter (\<lambda>e. entry_id e \<noteq> k) old)"
  by (simp add: prune_backup_def write_backup_def)

lemma prune_backup_write_fails:
  "setItem_fault ls = Some e \<Longrightarrow> prune_backup ls k item = item"
  by (simp add: prune_backup_def write_backup_def Let_def split: sum.splits)

lemma loadData_entries_cases:
  "entries (loadData ioc iob ls w) = entries w \<or>
   entries (loadData ioc iob ls w) = sort_newest_first (clients w) \<or>
   backup w = Stored (entries (loadData ioc iob ls w))"
  by (auto simp: loadData_def loadData_fallback_def getAllClients_def Let_def
      split: sum.splits option.splits ls_item.splits)

lemma primary_world_fields:
  "clients primary_world = [older_entry, recent_entry]" "backgrounds primary_world = Some []"
  "backup primary_world = Absent" "entries primary_world = []" "alerts primary_world = []"
  by (simp_all add: primary_world_def empty_world_def)

lemma one_backup_save_eq:
  "one_backup_save = empty_world\<lparr>console := [WarnSaveFailed (Error ''Failed to open database.'')],
      backup := Stored [recent_entry], entries := [recent_entry], alerts := [SavedToLocalBackup]\<rparr>"
  using handleSaveEntry_open_fails[of empty_world "[]" recent_entry]
  by (simp add: one_backup_save_def read_backup_ok empty_world_fields)

lemma two_backup_saves_fields:
  "clients two_backup_saves = []" "backgrounds two_backup_saves = Some []"
  using handleSaveEntry_open_fails[of one_backup_save "[recent_entry]" older_entry]
  by (simp_all add: two_backup_saves_def backup_one_backup_save read_backup_ok one_backup_save_eq
      empty_world_fields)

text \<open>
  Claim C8, as the code has it. A confirmed handleDeleteEntry deletes the key from the
  Primary store and then tries to write the Fallback list without the entries of that id;
  a failure of that attempt leaves the Fallback item as it was and surfaces nothing (no
  alert, no console line). After a successful delete, a load served by the Primary tier
  never shows the id, and neither does any load when the Fallback removal went through.
  If the Primary delete fails, the only effect is the one alert: both tiers and the
  ledger are unchanged.
\<close>

theorem handleDeleteEntry_effect:
  "(deleteClient io k (clients w) = Inr db' \<longrightarrow>
      clients (handleDeleteEntry io ls k w) = delete_key k (clients w)
      \<and> k \<notin> entry_id ` set (clients (handleDeleteEntry io ls k w))
      \<and> entries (handleDeleteEntry io ls k w) = filter (\<lambda>e. entry_id e \<noteq> k) (entries w)
      \<and> alerts (handleDeleteEntry io ls k w) = alerts w
      \<and> console (handleDeleteEntry io ls k w) = console w
      \<and> (backup (handleDeleteEntry io ls k w) = backup w \<or>
         (\<exists>old. read_backup_or_empty ls (backup w) = Inr old \<and>
            backup (handleDeleteEntry io ls k w) = Stored (filter (\<lambda>e. entry_id e \<noteq> k) old))))
   \<and> (deleteClient io k (clients w) = Inr db' \<and> getAllClients ioc db' = Inr data \<and>
       getAllBackgrounds iob (backgrounds w) = Inr bgs \<longrightarrow>
      k \<notin> entry_id ` set (entries (loadData ioc iob ls' (mount (handleDeleteEntry io ls k w)))))
   \<and> (deleteClient io k (clients w) = Inr db' \<and>
       read_backup_or_empty ls (backup w) = Inr old \<and> setItem_fault ls = None \<longrightarrow>
      k \<notin> entry_id ` set (entries (loadData ioc iob ls' (mount (handleDeleteEntry io ls k w)))))
   \<and> (deleteClient io k (clients w) = Inl e \<longrightarrow>
      handleDeleteEntry io ls k w = w\<lparr>alerts := ErrorDeletingRecord # alerts w\<rparr>)"
proof -
  let ?w' = "handleDeleteEntry io ls k w"
  have ok: "deleteClient io k (clients w) = Inr db' \<Longrightarrow>
      ?w' = w\<lparr>clients := delete_key k (clients w), backup := prune_backup ls k (backup w),
               entries := filter (\<lambda>e. entry_id e \<noteq> k) (entries w)\<rparr>"
    using deleteClient_Inr[of io k "clients w" db'] by (simp add: handleDeleteEntry_def)
  have pA: "deleteClient io k (clients w) = Inr db' \<longrightarrow>
      clients ?w' = delete_key k (clients w)
      \<and> k \<notin> entry_id ` set (clients ?w')
      \<and> entries ?w' = filter (\<lambda>e. entry_id e \<noteq> k) (entries w)
      \<and> alerts ?w' = alerts w
      \<and> console ?w' = console w
      \<and> (backup ?w' = backup w \<or>
         (\<exists>old. read_backup_or_empty ls (backup w) = Inr old \<and>
            backup ?w' = Stored (filter (\<lambda>e. entry_id e \<noteq> k) old)))"
  proof
    assume h: "deleteClient io k (clients w) = Inr db'"
    note eq = ok[OF h]
    have b: "backup ?w' = prune_backup ls k (backup w)" by (simp add: eq)
    show "clients ?w' = delete_key k (clients w)
      \<and> k \<notin> entry_id ` set (clients ?w')
      \<and> entries ?w' = filter (\<lambda>e. entry_id e \<noteq> k) (entries w)
      \<and> alerts ?w' = alerts w
      \<and> console ?w' = console w
      \<and> (backup ?w' = backup w \<or>
         (\<exists>old. read_backup_or_empty ls (backup w) = Inr old \<and>
            backup ?w' = Stored (filter (\<lambda>e. entry_id e \<noteq> k) old)))"
      unfolding b using prune_backup_cases[of ls k "backup w"] delete_key_absent[of k "clients w"]
      by (auto simp: eq)
  qed
  have pB: "deleteClient io k (clients w) = Inr db' \<and> getAllClients ioc db' = Inr data \<and>
       getAllBackgrounds iob (backgrounds w) = Inr bgs \<longrightarrow>
      k \<notin> entry_id ` set (entries (loadData ioc iob ls' (mount ?w')))"
  proof
    assume h: "deleteClient io k (clients w) = Inr db' \<and> getAllClients ioc db' = Inr data \<and>
       getAllBackgrounds iob (backgrounds w) = Inr bgs"
    then have eq: "?w' = w\<lparr>clients := delete_key k (clients w), backup := prune_backup ls k (backup w),
               entries := filter (\<lambda>e. entry_id e \<noteq> k) (entries w)\<rparr>"
      using ok by blast
    have db': "db' = delete_key k (clients w)" using h deleteClient_Inr by blast
    have data: "data = sort_newest_first db'" using h getAllClients_Inr by blast
    have "entries (loadData ioc iob ls' (mount ?w')) = data"
      using h loadData_primary[of ioc "mount ?w'" data iob bgs ls']
      by (simp add: mount_stores eq db')
    then show "k \<notin> entry_id ` set (entries (loadData ioc iob ls' (mount ?w')))"
      using delete_key_absent[of k "clients w"]
      by (simp add: data db' set_sort_newest_first)
  qed
  have pC: "deleteClient io k (clients w) = Inr db' \<and>
       read_backup_or_empty ls (backup w) = Inr old \<and> setItem_fault ls = None \<longrightarrow>
      k \<notin> entry_id ` set (entries (loadData ioc iob ls' (mount ?w')))"
  proof
    assume h: "deleteClient io k (clients w) = Inr db' \<and>
       read_backup_or_empty ls (backup w) = Inr old \<and> setItem_fault ls = None"
    then have eq: "?w' = w\<lparr>clients := delete_key k (clients w), backup := prune_backup ls k (backup w),
               entries := filter (\<lambda>e. entry_id e \<noteq> k) (entries w)\<rparr>"
      using ok by blast
    have cl: "clients (mount ?w') = delete_key k (clients w)" by (simp add: mount_stores eq)
    have bk: "backup (mount ?w') = Stored (filter (\<lambda>e. entry_id e \<noteq> k) old)"
      using h by (simp add: mount_stores eq prune_backup_ok)
    let ?r = "entries (loadData ioc iob ls' (mount ?w'))"
    from loadData_entries_cases[of ioc iob ls' "mount ?w'"]
    consider "?r = []" | "?r = sort_newest_first (delete_key k (clients w))"
      | "?r = filter (\<lambda>e. entry_id e \<noteq> k) old"
      unfolding cl bk by (auto simp: mount_stores)
    then show "k \<notin> entry_id ` set ?r"
    proof cases
      case 1
      then show ?thesis by simp
    next
      case 2
      then show ?thesis using delete_key_absent[of k "clients w"]
        by (simp add: set_sort_newest_first)
    next
      case 3
      then show ?thesis by auto
    qed
  qed
  have pD: "deleteClient io k (clients w) = Inl e \<longrightarrow>
      ?w' = w\<lparr>alerts := ErrorDeletingRecord # alerts w\<rparr>"
    by (simp add: handleDeleteEntry_def)
  show ?thesis using pA pB pC pD by blast
qed

text \<open>
  Instances: a delete followed by a Primary load, a delete followed by a Fallback load
  after the Fallback removal went through, and a failed delete.
\<close>

theorem handleDeleteEntry_instances:
  "entry_id older_entry \<notin> entry_id ` set (entries (loadData io_ok io_ok ls_ok
       (mount (handleDeleteEntry io_ok ls_ok (entry_id older_entry) primary_world))))
   \<and> clients (handleDeleteEntry io_ok ls_ok (entry_id older_entry) primary_world) = [recent_entry]
   \<and> entry_id older_entry \<notin> entry_id ` set (entries (loadData io_open_fails io_ok ls_ok
       (mount (handleDeleteEntry io_ok ls_ok (entry_id older_entry) two_backup_saves))))
   \<and> handleDeleteEntry io_open_fails ls_ok (entry_id older_entry) primary_world =
       primary_world\<lparr>alerts := [ErrorDeletingRecord]\<rparr>"
proof -
  let ?k = "entry_id older_entry"
  have del: "delete_key ?k [older_entry, recent_entry] = [recent_entry]"
    by (simp add: delete_key_def timestamps_samples)
  have c1: "?k \<notin> entry_id ` set (entries (loadData io_ok io_ok ls_ok
       (mount (handleDeleteEntry io_ok ls_ok ?k primary_world))))"
    using handleDeleteEntry_effect [where io = io_ok and k = ?k and w = primary_world
        and db' = "[recent_entry]" and ioc = io_ok and data = "sort_newest_first [recent_entry]"
        and iob = io_ok and bgs = "[]" and ls = ls_ok and ls' = ls_ok]
    by (simp add: deleteClient_ok primary_world_fields del getAllClients_io_ok getAllBackgrounds_ok)
  have c2: "clients (handleDeleteEntry io_ok ls_ok ?k primary_world) = [recent_entry]"
    using handleDeleteEntry_effect [where io = io_ok and k = ?k and w = primary_world
        and db' = "[recent_entry]" and ls = ls_ok]
    by (simp add: deleteClient_ok primary_world_fields del)
  have c3: "?k \<notin> entry_id ` set (entries (loadData io_open_fails io_ok ls_ok
       (mount (handleDeleteEntry io_ok ls_ok ?k two_backup_saves))))"
    using handleDeleteEntry_effect [where io = io_ok and k = ?k and w = two_backup_saves
        and db' = "[]" and ioc = io_open_fails and iob = io_ok and ls = ls_ok and ls' = ls_ok
        and old = "[older_entry, recent_entry]"]
    by (simp add: deleteClient_ok two_backup_saves_fields backup_two_backup_saves read_backup_ok
        ls_ok_fields delete_key_def)
  have c4: "handleDeleteEntry io_open_fails ls_ok ?k primary_world =
       primary_world\<lparr>alerts := [ErrorDeletingRecord]\<rparr>"
    using handleDeleteEntry_effect [where io = io_open_fails and k = ?k and w = primary_world
        and ls = ls_ok and e = "Error ''Failed to open database.''"]
    by (simp add: deleteClient_open_fails primary_world_fields)
  show ?thesis using c1 c2 c3 c4 by simp
qed

text \<open>
  Claim C8 as worded fails where the swallowed failure meets a Fallback load: the record
  lives in the Fallback list, the delete succeeds on the Primary tier while the Fallback
  write fails silently, and a later load served by the Fallback tier shows the record
  again.
\<close>

theorem delete_then_fallback_load_counterexample:
  "alerts (handleDeleteEntry io_ok ls_full (entry_id recent_entry) one_backup_save) = alerts one_backup_save
   \<and> entry_id recent_entry \<notin> entry_id ` set (clients (handleDeleteEntry io_ok ls_full (entry_id recent_entry) one_backup_save))
   \<and> entries (loadData io_open_fails io_ok ls_ok
        (mount (handleDeleteEntry io_ok ls_full (entry_id recent_entry) one_backup_save))) = [recent_entry]"
proof -
  let ?k = "entry_id recent_entry"
  let ?w' = "handleDeleteEntry io_ok ls_full ?k one_backup_save"
  have eq: "?w' = one_backup_save\<lparr>clients := delete_key ?k (clients one_backup_save),
        backup := prune_backup ls_full ?k (backup one_backup_save),
        entries := filter (\<lambda>e. entry_id e \<noteq> ?k) (entries one_backup_save)\<rparr>"
    by (simp add: handleDeleteEntry_def deleteClient_ok)
  have pb: "prune_backup ls_full ?k (backup one_backup_save) = Stored [recent_entry]"
    using prune_backup_write_fails[of ls_full quota_exception ?k "backup one_backup_save"]
    by (simp add: ls_full_def backup_one_backup_save)
  have cl: "clients one_backup_save = []"
    by (simp add: one_backup_save_eq empty_world_fields)
  have rd: "read_backup_or_empty ls_ok (backup (mount ?w')) = Inr [recent_entry]"
    by (simp add: mount_stores eq pb read_backup_ok)
  have load: "entries (loadData io_open_fails io_ok ls_ok (mount ?w')) = [recent_entry]"
    using loadData_clients_failed[of io_open_fails "mount ?w'" _ io_ok ls_ok]
      loadData_fallback_read[OF rd]
    by (simp add: mount_stores getAllClients_open_fails)
  show ?thesis unfolding load by (simp add: eq cl delete_key_def)
qed

section \<open>The reduced-fidelity save\<close>

lemma quota_decision_world_eq:
  "quota_decision_world = empty_world\<lparr>failedEntry := Some recent_entry, showStorageModal := True\<rparr>"
  by (simp add: quota_decision_world_def handleSaveEntry_def saveClient_def io_quota_def openDB_def
      is_quota_failure_def isQuotaError_def quota_exception_def)

lemma saveClient_quota: "saveClient io_quota R db = Inl quota_exception"
  by (simp add: saveClient_def io_quota_def openDB_def)

text \<open>
  Claim C7, as the code has it. handleSaveTextOnly builds a copy of the failed record
  with clientPhoto cleared and every other field unchanged, and saves that copy, and only
  it, with the Primary-tier save of dbService. On success the copy is the stored and
  displayed record and the dialog closes; on any failure the only effect is one alert:
  the Fallback tier is not tried and no store changes.
\<close>

theorem handleSaveTextOnly_effect:
  "clientPhoto (failed\<lparr>clientPhoto := None\<rparr>) = None
   \<and> (failed\<lparr>clientPhoto := None\<rparr>)\<lparr>clientPhoto := clientPhoto failed\<rparr> = failed
   \<and> entry_id (failed\<lparr>clientPhoto := None\<rparr>) = entry_id failed
   \<and> timestamp (failed\<lparr>clientPhoto := None\<rparr>) = timestamp failed
   \<and> signatureImage (failed\<lparr>clientPhoto := None\<rparr>) = signatureImage failed
   \<and> (saveClient io (failed\<lparr>clientPhoto := None\<rparr>) (clients w) = Inr db' \<longrightarrow>
        handleSaveTextOnly io failed w =
          w\<lparr>clients := put (failed\<lparr>clientPhoto := None\<rparr>) (clients w),
            entries := failed\<lparr>clientPhoto := None\<rparr> # entries w, view := ledger,
            showStorageModal := False, failedEntry := None\<rparr>)
   \<and> (saveClient io (failed\<lparr>clientPhoto := None\<rparr>) (clients w) = Inl e \<longrightarrow>
        handleSaveTextOnly io failed w = w\<lparr>alerts := StillCannotSave # alerts w\<rparr>)"
proof -
  let ?copy = "failed\<lparr>clientPhoto := None\<rparr>"
  have ok: "saveClient io ?copy (clients w) = Inr db' \<longrightarrow>
        handleSaveTextOnly io failed w =
          w\<lparr>clients := put ?copy (clients w), entries := ?copy # entries w, view := ledger,
            showStorageModal := False, failedEntry := None\<rparr>"
  proof
    assume h: "saveClient io ?copy (clients w) = Inr db'"
    then have "db' = put ?copy (clients w)" by (rule saveClient_Inr)
    with h show "handleSaveTextOnly io failed w =
          w\<lparr>clients := put ?copy (clients w), entries := ?copy # entries w, view := ledger,
            showStorageModal := False, failedEntry := None\<rparr>"
      by (simp add: handleSaveTextOnly_def onSuccess_def Let_def)
  qed
  have bad: "saveClient io ?copy (clients w) = Inl e \<longrightarrow>
        handleSaveTextOnly io failed w = w\<lparr>alerts := StillCannotSave # alerts w\<rparr>"
    by (simp add: handleSaveTextOnly_def)
  show ?thesis using ok bad by simp
qed

text \<open>Instances: the retry succeeding, and the retry failing on quota again.\<close>

theorem handleSaveTextOnly_instances:
  "handleSaveTextOnly io_ok recent_entry quota_decision_world =
     quota_decision_world\<lparr>clients := [recent_entry\<lparr>clientPhoto := None\<rparr>],
        entries := [recent_entry\<lparr>clientPhoto := None\<rparr>], view := ledger,
        showStorageModal := False, failedEntry := None\<rparr>
   \<and> handleSaveTextOnly io_quota recent_entry quota_decision_world =
     quota_decision_world\<lparr>alerts := [StillCannotSave]\<rparr>"
proof -
  have f: "clients quota_decision_world = []" "entries quota_decision_world = []"
    "alerts quota_decision_world = []"
    by (simp_all add: quota_decision_world_eq empty_world_fields)
  have c1: "handleSaveTextOnly io_ok recent_entry quota_decision_world =
     quota_decision_world\<lparr>clients := [recent_entry\<lparr>clientPhoto := None\<rparr>],
        entries := [recent_entry\<lparr>clientPhoto := None\<rparr>], view := ledger,
        showStorageModal := False, failedEntry := None\<rparr>"
    using handleSaveTextOnly_effect [where failed = recent_entry and io = io_ok
        and w = quota_decision_world and db' = "[recent_entry\<lparr>clientPhoto := None\<rparr>]"]
    by (simp add: saveClient_ok f)
  have c2: "handleSaveTextOnly io_quota recent_entry quota_decision_world =
     quota_decision_world\<lparr>alerts := [StillCannotSave]\<rparr>"
    using handleSaveTextOnly_effect [where failed = recent_entry and io = io_quota
        and w = quota_decision_world and e = quota_exception]
    by (simp add: saveClient_quota f)
  show ?thesis using c1 c2 by simp
qed

text \<open>
  Claim C7 as worded fails in what is retried: not handleSaveEntry with its cascade.
  When the Primary save of the copy fails with a failure that is not a quota failure,
  handleSaveEntry on the copy would store it in the Fallback list and succeed, while
  handleSaveTextOnly stores nothing and reports failure.
\<close>

theorem handleSaveTextOnly_no_cascade_counterexample:
  "fst (handleSaveEntry io_open_fails ls_ok (recent_entry\<lparr>clientPhoto := None\<rparr>) quota_decision_world)
   \<and> backup (snd (handleSaveEntry io_open_fails ls_ok (recent_entry\<lparr>clientPhoto := None\<rparr>) quota_decision_world))
       = Stored [recent_entry\<lparr>clientPhoto := None\<rparr>]
   \<and> backup (handleSaveTextOnly io_open_fails recent_entry quota_decision_world) = Absent
   \<and> clients (handleSaveTextOnly io_open_fails recent_entry quota_decision_world) = []
   \<and> alerts (handleSaveTextOnly io_open_fails recent_entry quota_decision_world) = [StillCannotSave]"
proof -
  have f: "clients quota_decision_world = []" "backup quota_decision_world = Absent"
    "alerts quota_decision_world = []"
    by (simp_all add: quota_decision_world_eq empty_world_fields)
  have rd: "read_backup_or_empty ls_ok (backup quota_decision_world) = Inr []"
    by (simp add: f read_backup_ok)
  note sv = handleSaveEntry_open_fails[OF rd, of "recent_entry\<lparr>clientPhoto := None\<rparr>"]
  have t: "handleSaveTextOnly io_open_fails recent_entry quota_decision_world =
      quota_decision_world\<lparr>alerts := StillCannotSave # alerts quota_decision_world\<rparr>"
    by (simp add: handleSaveTextOnly_def saveClient_open_fails)
  show ?thesis unfolding t by (simp add: sv f)
qed

section \<open>Identifiers and timestamps\<close>

lemma floor_rnd_bounds: "0 \<le> rnd \<Longrightarrow> rnd < 1 \<Longrightarrow> 0 \<le> \<lfloor>rnd * 1000\<rfloor> \<and> \<lfloor>rnd * 1000\<rfloor> \<le> (999::int)" for rnd :: rat
proof -
  assume a: "0 \<le> rnd" "rnd < 1"
  then have "0 \<le> rnd * 1000" "rnd * 1000 < 1000" by simp_all
  then show ?thesis by (simp add: floor_le_iff)
qed

lemma uniqueId_bounds: "0 \<le> rnd \<Longrightarrow> rnd < 1 \<Longrightarrow> now \<le> uniqueId now rnd \<and> uniqueId now rnd \<le> now + 999"
  using floor_rnd_bounds[of rnd] by (simp add: uniqueId_def)

lemma stripOldPhotos_Inr:
  "wf_store db \<Longrightarrow> stripOldPhotos io now d db = Inr (n, db') \<Longrightarrow>
   db' = map (strip_entry (cutoff_of now d)) db"
  by (auto simp: stripOldPhotos_def strip_cursor_all split: sum.splits option.splits)

lemma deleteOldRecords_Inr:
  "wf_store db \<Longrightarrow> deleteOldRecords io now d db = Inr (n, db') \<Longrightarrow>
   db' = filter (\<lambda>e. \<not> timestamp e < cutoff_of now d) db"
  by (auto simp: deleteOldRecords_def delete_cursor_all split: sum.splits option.splits)

lemma strip_entry_keeps:
  "entry_id (strip_entry c e) = entry_id e" "timestamp (strip_entry c e) = timestamp e"
  "(strip_entry c e)\<lparr>clientPhoto := None\<rparr> = e\<lparr>clientPhoto := None\<rparr>"
  by (simp_all add: strip_entry_def)

lemma set_put_subset: "set (put R db) \<subseteq> insert R (set db)"
  by (induction db) auto

text \<open>
  Claim C9, as the code has it. A created record carries the clock reading as its
  timestamp and an id between that reading and 999 above it, so records created at least
  1000 ms apart have different, increasing ids. No operation changes the id or the
  timestamp of a stored record: stripOldPhotos changes clientPhoto only, deleteOldRecords
  and put leave every record they keep as it was, and the copy made for the
  reduced-fidelity save has the same id and timestamp.
\<close>

theorem id_and_timestamp_stability:
  "(0 \<le> rnd \<and> rnd < 1 \<longrightarrow>
      timestamp (newEntry_of now rnd f) = now
      \<and> now \<le> entry_id (newEntry_of now rnd f)
      \<and> entry_id (newEntry_of now rnd f) \<le> now + 999)
   \<and> (0 \<le> rnd \<and> rnd < 1 \<and> 0 \<le> rnd' \<and> rnd' < 1 \<and> now + 1000 \<le> now' \<longrightarrow>
      entry_id (newEntry_of now rnd f) < entry_id (newEntry_of now' rnd' f'))
   \<and> (wf_store db \<and> stripOldPhotos io t d db = Inr (n, db') \<longrightarrow>
      map entry_id db' = map entry_id db
      \<and> map timestamp db' = map timestamp db
      \<and> map (\<lambda>e. e\<lparr>clientPhoto := None\<rparr>) db' = map (\<lambda>e. e\<lparr>clientPhoto := None\<rparr>) db)
   \<and> (wf_store db \<and> deleteOldRecords io t d db = Inr (n, db') \<longrightarrow> set db' \<subseteq> set db)
   \<and> set (put R db) \<subseteq> insert R (set db)
   \<and> entry_id (R\<lparr>clientPhoto := None\<rparr>) = entry_id R
   \<and> timestamp (R\<lparr>clientPhoto := None\<rparr>) = timestamp R"
proof -
  have p1: "0 \<le> rnd \<and> rnd < 1 \<longrightarrow>
      timestamp (newEntry_of now rnd f) = now
      \<and> now \<le> entry_id (newEntry_of now rnd f)
      \<and> entry_id (newEntry_of now rnd f) \<le> now + 999"
    using uniqueId_bounds[of rnd now] by (simp add: newEntry_of_def)
  have p2: "0 \<le> rnd \<and> rnd < 1 \<and> 0 \<le> rnd' \<and> rnd' < 1 \<and> now + 1000 \<le> now' \<longrightarrow>
      entry_id (newEntry_of now rnd f) < entry_id (newEntry_of now' rnd' f')"
    using uniqueId_bounds[of rnd now] uniqueId_bounds[of rnd' now'] by (auto simp: newEntry_of_def)
  have p3: "wf_store db \<and> stripOldPhotos io t d db = Inr (n, db') \<longrightarrow>
      map entry_id db' = map entry_id db
      \<and> map timestamp db' = map timestamp db
      \<and> map (\<lambda>e. e\<lparr>clientPhoto := None\<rparr>) db' = map (\<lambda>e. e\<lparr>clientPhoto := None\<rparr>) db"
  proof
    assume "wf_store db \<and> stripOldPhotos io t d db = Inr (n, db')"
    then have "db' = map (strip_entry (cutoff_of t d)) db" using stripOldPhotos_Inr by blast
    then show "map entry_id db' = map entry_id db
      \<and> map timestamp db' = map timestamp db
      \<and> map (\<lambda>e. e\<lparr>clientPhoto := None\<rparr>) db' = map (\<lambda>e. e\<lparr>clientPhoto := None\<rparr>) db"
      by (simp add: strip_entry_keeps comp_def)
  qed
  have p4: "wf_store db \<and> deleteOldRecords io t d db = Inr (n, db') \<longrightarrow> set db' \<subseteq> set db"
  proof
    assume "wf_store db \<and> deleteOldRecords io t d db = Inr (n, db')"
    then have "db' = filter (\<lambda>e. \<not> timestamp e < cutoff_of t d) db" using deleteOldRecords_Inr by blast
    then show "set db' \<subseteq> set db" by auto
  qed
  show ?thesis using p1 p2 p3 p4 set_put_subset[of R db] by simp
qed

text \<open>Instances for each part.\<close>

theorem id_and_timestamp_instances:
  "entry_id (newEntry_of 1699136000000 (171/200) (sample_form ''Asha'')) = 1699136000855
   \<and> timestamp (newEntry_of 1699136000000 (171/200) (sample_form ''Asha'')) = 1699136000000
   \<and> entry_id (newEntry_of 1699136000000 (171/200) (sample_form ''Asha''))
       < entry_id (newEntry_of 1699136001000 0 (sample_form ''Bela''))
   \<and> map entry_id [older_entry\<lparr>clientPhoto := None\<rparr>, recent_entry] = map entry_id [older_entry, recent_entry]
   \<and> stripOldPhotos io_ok 1700000000000 30 [older_entry, recent_entry] =
       Inr (1, [older_entry\<lparr>clientPhoto := None\<rparr>, recent_entry])
   \<and> deleteOldRecords io_ok 1700000000000 365 [older_entry, recent_entry] = Inr (1, [recent_entry])"
proof -
  have wf: "wf_store [older_entry, recent_entry]"
    by (simp add: wf_store_def timestamps_samples)
  have st: "stripOldPhotos io_ok 1700000000000 30 [older_entry, recent_entry] =
       Inr (1, [older_entry\<lparr>clientPhoto := None\<rparr>, recent_entry])"
    by (simp add: stripOldPhotos_def io_ok_def openDB_def cutoff_of_def timestamps_samples
        has_photo_def older_entry_def recent_entry_def sample_entry_def)
  have dl: "deleteOldRecords io_ok 1700000000000 365 [older_entry, recent_entry] = Inr (1, [recent_entry])"
    by (simp add: deleteOldRecords_def io_ok_def openDB_def cutoff_of_def timestamps_samples delete_key_def)
  have c1: "entry_id (newEntry_of 1699136000000 (171/200) (sample_form ''Asha'')) = 1699136000855
   \<and> timestamp (newEntry_of 1699136000000 (171/200) (sample_form ''Asha'')) = 1699136000000"
    using id_and_timestamp_stability [where rnd = "171/200" and now = 1699136000000
        and f = "sample_form ''Asha''"]
    by (simp add: newEntry_of_def uniqueId_def)
  have c2: "entry_id (newEntry_of 1699136000000 (171/200) (sample_form ''Asha''))
       < entry_id (newEntry_of 1699136001000 0 (sample_form ''Bela''))"
    using id_and_timestamp_stability [where rnd = "171/200" and now = 1699136000000
        and f = "sample_form ''Asha''" and rnd' = 0 and now' = 1699136001000
        and f' = "sample_form ''Bela''"]
    by simp
  have c3: "map entry_id [older_entry\<lparr>clientPhoto := None\<rparr>, recent_entry] = map entry_id [older_entry, recent_entry]"
    using id_and_timestamp_stability [where db = "[older_entry, recent_entry]" and io = io_ok
        and t = 1700000000000 and d = 30 and n = 1
        and db' = "[older_entry\<lparr>clientPhoto := None\<rparr>, recent_entry]"] wf st
    by simp
  have c4: "set [recent_entry] \<subseteq> set [older_entry, recent_entry]"
    using id_and_timestamp_stability [where db = "[older_entry, recent_entry]" and io = io_ok
        and t = 1700000000000 and d = 365 and n = 1 and db' = "[recent_entry]"] wf dl
    by simp
  show ?thesis using c1 c2 c3 c4 st dl by simp
qed

text \<open>
  Claim C9 as worded fails on uniqueness: the random addend can make up for a difference
  in creation time, so two records created 5 ms apart can get the same id, and saving the
  second replaces the first in the Primary store.
\<close>

theorem id_collision_counterexample:
  "entry_id (newEntry_of 1699136000000 (1/200) (sample_form ''Asha''))
     = entry_id (newEntry_of 1699136000005 0 (sample_form ''Bela''))
   \<and> timestamp (newEntry_of 1699136000000 (1/200) (sample_form ''Asha''))
     \<noteq> timestamp (newEntry_of 1699136000005 0 (sample_form ''Bela''))
   \<and> put (newEntry_of 1699136000005 0 (sample_form ''Bela''))
        (put (newEntry_of 1699136000000 (1/200) (sample_form ''Asha'')) [])
     = [newEntry_of 1699136000005 0 (sample_form ''Bela'')]"
  by (simp add: newEntry_of_def uniqueId_def)

section \<open>Reading the background images\<close>

text \<open>
  Claim C10 does not hold of the code. getAllBackgrounds resolves with the empty list
  when the database cannot be opened and when the store 'backgrounds' is missing, but when
  the read request fails its promise rejects with the request's error: the promise of the
  read is returned from the try block without await, so the catch clause never sees the
  rejection.
\<close>

theorem getAllBackgrounds_request_error_rejects:
  "getAllBackgrounds \<lparr>open_db = Opened, request_fault = Some e\<rparr> (Some bgs) = Inl e
   \<and> getAllBackgrounds \<lparr>open_db = Unsupported, request_fault = rf\<rparr> store = Inr []
   \<and> getAllBackgrounds \<lparr>open_db = OpenRequestError, request_fault = rf\<rparr> store = Inr []
   \<and> getAllBackgrounds \<lparr>open_db = OpenThrows e', request_fault = rf\<rparr> store = Inr []
   \<and> getAllBackgrounds \<lparr>open_db = Opened, request_fault = rf\<rparr> None = Inr []"
  by (simp add: getAllBackgrounds_def openDB_def)

end
